theory Spec2Isabelle
  imports Complex_Main
begin

section \<open>JavaScript values\<close>

text \<open>
  The route handler \<^verbatim>\<open>GET\<close> of \<^verbatim>\<open>src/app/api/status/route.ts\<close> asks a Shoutcast server for
  its status at five URLs in turn, parses the first answer it can use and replies with
  a normalised JSON envelope.  This theory embeds the handler: the JavaScript values it
  works on, the library functions it calls, its four parsers, the loop over the URLs and
  the reply.  The network and the clock are parameters of \<open>GET\<close>.

  The values are untyped: the result of \<^verbatim>\<open>res.json()\<close>, the properties read from it, and
  the variables \<^verbatim>\<open>locutor\<close>, \<^verbatim>\<open>programa\<close> and \<^verbatim>\<open>unicos\<close>.  A number is an IEEE double; the
  model keeps a finite double as the rational it denotes and has the three special
  values.  The handler only compares numbers with 0 and 1, so the sign of zero is not
  modelled.  A string is the list of the bytes of its UTF-8 encoding; the characters the
  handler looks for (\<^verbatim>\<open><\<close>, \<^verbatim>\<open>>\<close>, the comma, the double quote, digits) are single bytes that
  occur in no other character's encoding.
\<close>

datatype jsnum = Finite rat | NaN | PosInf | NegInf

datatype jsval =
    JUndefined
  | JNull
  | JBool bool
  | JNum jsnum
  | JStr string
  | JArr "jsval list"
  | JObj "(string \<times> jsval) list"

text \<open>A thrown value: every value thrown in this program is an \<^verbatim>\<open>Error\<close> object.\<close>

datatype jserror = JSError (err_name: string) (err_message: string)

text \<open>\<^verbatim>\<open>String(e)\<close> for an error object is \<^verbatim>\<open>Error.prototype.toString\<close>.\<close>

definition error_to_string :: "jserror \<Rightarrow> string" where
  "error_to_string e =
     (if err_name e = [] then err_message e
      else if err_message e = [] then err_name e
      else err_name e @ '': '' @ err_message e)"

text \<open>\<^verbatim>\<open>String(lastError)\<close>, where \<^verbatim>\<open>lastError\<close> is \<^verbatim>\<open>null\<close> or a caught error.\<close>

definition last_error_to_string :: "jserror option \<Rightarrow> string" where
  "last_error_to_string le = (case le of None \<Rightarrow> ''null'' | Some e \<Rightarrow> error_to_string e)"

subsection \<open>Truthiness and the operators \<^verbatim>\<open>||\<close>, \<^verbatim>\<open>&&\<close>, \<^verbatim>\<open>??\<close>\<close>

fun truthy :: "jsval \<Rightarrow> bool" where
  "truthy JUndefined = False"
| "truthy JNull = False"
| "truthy (JBool b) = b"
| "truthy (JNum (Finite r)) = (r \<noteq> 0)"
| "truthy (JNum NaN) = False"
| "truthy (JNum PosInf) = True"
| "truthy (JNum NegInf) = True"
| "truthy (JStr s) = (s \<noteq> [])"
| "truthy (JArr xs) = True"
| "truthy (JObj kvs) = True"

fun nullish :: "jsval \<Rightarrow> bool" where
  "nullish JUndefined = True"
| "nullish JNull = True"
| "nullish v = False"

text \<open>\<^verbatim>\<open>a || b\<close>\<close>

definition js_or :: "jsval \<Rightarrow> jsval \<Rightarrow> jsval" where
  "js_or a b = (if truthy a then a else b)"

text \<open>\<^verbatim>\<open>a ?? b\<close>\<close>

definition js_coalesce :: "jsval \<Rightarrow> jsval \<Rightarrow> jsval" where
  "js_coalesce a b = (if nullish a then b else a)"

subsection \<open>Property access\<close>

text \<open>
  \<^verbatim>\<open>v.k\<close> for a value that is neither \<^verbatim>\<open>null\<close> nor \<^verbatim>\<open>undefined\<close>.  An object parsed from
  JSON is the list of its own properties, one entry for each key.  None of the property
  names the handler reads (\<^verbatim>\<open>dj\<close>, \<^verbatim>\<open>streams\<close>, \<^verbatim>\<open>songtitle\<close>, ...) is defined on the
  prototype of an object, array, string, number or boolean, so the read gives
  \<^verbatim>\<open>undefined\<close> for a key the object does not have and on every other value.
\<close>

fun get_prop :: "jsval \<Rightarrow> string \<Rightarrow> jsval" where
  "get_prop (JObj kvs) k = (case map_of kvs k of Some v \<Rightarrow> v | None \<Rightarrow> JUndefined)"
| "get_prop v k = JUndefined"

text \<open>\<^verbatim>\<open>v?.k\<close>\<close>

definition opt_prop :: "jsval \<Rightarrow> string \<Rightarrow> jsval" where
  "opt_prop v k = (if nullish v then JUndefined else get_prop v k)"

text \<open>
  Reading a property of \<^verbatim>\<open>null\<close> or \<^verbatim>\<open>undefined\<close> throws a \<^verbatim>\<open>TypeError\<close>
  (the message is the one of V8).
\<close>

definition read_error :: "jsval \<Rightarrow> string \<Rightarrow> jserror" where
  "read_error v k =
     JSError ''TypeError''
       (''Cannot read properties of '' @ (if v = JNull then ''null'' else ''undefined'')
          @ '' (reading '' @ [CHR 0x27] @ k @ [CHR 0x27] @ '')'')"

fun is_array :: "jsval \<Rightarrow> bool" where
  "is_array (JArr xs) = True"
| "is_array v = False"

text \<open>\<^verbatim>\<open>a.length\<close> and \<^verbatim>\<open>a[0]\<close>, used on arrays only.\<close>

fun array_length :: "jsval \<Rightarrow> nat" where
  "array_length (JArr xs) = length xs"
| "array_length v = 0"

fun array_first :: "jsval \<Rightarrow> jsval" where
  "array_first (JArr (x # xs)) = x"
| "array_first v = JUndefined"

section \<open>Strings\<close>

text \<open>
  The characters that \<^verbatim>\<open>String.prototype.trim\<close> and the conversion of a string to a
  number strip: the white space and line terminators of ECMAScript, each given by the
  bytes of its UTF-8 encoding (U+0009 to U+000D, U+0020, U+00A0, U+1680, U+2000 to
  U+200A, U+2028, U+2029, U+202F, U+205F, U+3000, U+FEFF).
\<close>

definition white_space :: "string list" where
  "white_space =
     [[CHR 0x09], [CHR 0x0A], [CHR 0x0B], [CHR 0x0C], [CHR 0x0D], [CHR 0x20],
      [CHR 0xC2, CHR 0xA0],
      [CHR 0xE1, CHR 0x9A, CHR 0x80],
      [CHR 0xE2, CHR 0x80, CHR 0x80], [CHR 0xE2, CHR 0x80, CHR 0x81],
      [CHR 0xE2, CHR 0x80, CHR 0x82], [CHR 0xE2, CHR 0x80, CHR 0x83],
      [CHR 0xE2, CHR 0x80, CHR 0x84], [CHR 0xE2, CHR 0x80, CHR 0x85],
      [CHR 0xE2, CHR 0x80, CHR 0x86], [CHR 0xE2, CHR 0x80, CHR 0x87],
      [CHR 0xE2, CHR 0x80, CHR 0x88], [CHR 0xE2, CHR 0x80, CHR 0x89],
      [CHR 0xE2, CHR 0x80, CHR 0x8A],
      [CHR 0xE2, CHR 0x80, CHR 0xA8], [CHR 0xE2, CHR 0x80, CHR 0xA9],
      [CHR 0xE2, CHR 0x80, CHR 0xAF],
      [CHR 0xE2, CHR 0x81, CHR 0x9F],
      [CHR 0xE3, CHR 0x80, CHR 0x80],
      [CHR 0xEF, CHR 0xBB, CHR 0xBF]]"

text \<open>The first of the sequences \<open>ws\<close> that the string starts with.\<close>

definition leading :: "string list \<Rightarrow> string \<Rightarrow> string option" where
  "leading ws s = find (\<lambda>w. w \<noteq> [] \<and> take (length w) s = w) ws"

lemma leading_shorter: "leading ws s = Some w \<Longrightarrow> length (drop (length w) s) < length s"
proof -
  assume "leading ws s = Some w"
  then have w: "w \<noteq> []" and t: "take (length w) s = w"
    by (auto simp: leading_def find_Some_iff)
  from w t have "s \<noteq> []" by auto
  with w show ?thesis by simp
qed

function strip_leading :: "string list \<Rightarrow> string \<Rightarrow> string" where
  "strip_leading ws s =
     (case leading ws s of None \<Rightarrow> s | Some w \<Rightarrow> strip_leading ws (drop (length w) s))"
  by pat_completeness auto
termination
  by (relation "measure (\<lambda>(ws, s). length s)") (auto dest: leading_shorter)

declare strip_leading.simps [simp del]

text \<open>\<^verbatim>\<open>s.trim()\<close>\<close>

definition trim :: "string \<Rightarrow> string" where
  "trim s = rev (strip_leading (map rev white_space) (rev (strip_leading white_space s)))"

text \<open>\<^verbatim>\<open>s.split(",")\<close>: the fields between the commas; one field for a string without comma.\<close>

fun split_commas :: "string \<Rightarrow> string list" where
  "split_commas [] = [[]]"
| "split_commas (c # cs) =
     (if c = CHR '','' then [] # split_commas cs
      else (case split_commas cs of p # ps \<Rightarrow> (c # p) # ps | [] \<Rightarrow> [[c]]))"

text \<open>\<^verbatim>\<open>parts.join(",")\<close>\<close>

fun join_commas :: "string list \<Rightarrow> string" where
  "join_commas [] = []"
| "join_commas [p] = p"
| "join_commas (p # q # ps) = p @ CHR '','' # join_commas (q # ps)"

text \<open>
  \<^verbatim>\<open>s.replace(/<[^>]+>/g, "")\<close>.  A match starts at a \<^verbatim>\<open><\<close>, takes every character up to
  the next \<^verbatim>\<open>>\<close> (at least one, and \<^verbatim>\<open><\<close> is allowed among them) and that \<^verbatim>\<open>>\<close>; the search
  goes on after the match.  Where no match starts, the character is kept.
\<close>

function strip_tags :: "string \<Rightarrow> string" where
  "strip_tags [] = []"
| "strip_tags (c # cs) =
     (if c = CHR ''<'' \<and> takeWhile (\<lambda>d. d \<noteq> CHR ''>'') cs \<noteq> []
         \<and> dropWhile (\<lambda>d. d \<noteq> CHR ''>'') cs \<noteq> []
      then strip_tags (tl (dropWhile (\<lambda>d. d \<noteq> CHR ''>'') cs))
      else c # strip_tags cs)"
  by pat_completeness auto
termination
proof (relation "measure length")
  fix c :: char and cs :: string
  have "length (tl (dropWhile (\<lambda>d. d \<noteq> CHR ''>'') cs)) \<le> length cs"
    using length_dropWhile_le [of "\<lambda>d. d \<noteq> CHR ''>''" cs] by simp
  then show "c = CHR ''<'' \<and> takeWhile (\<lambda>d. d \<noteq> CHR ''>'') cs \<noteq> []
         \<and> dropWhile (\<lambda>d. d \<noteq> CHR ''>'') cs \<noteq> [] \<Longrightarrow>
       (tl (dropWhile (\<lambda>d. d \<noteq> CHR ''>'') cs), c # cs) \<in> measure length"
    by simp
qed simp_all

text \<open>
  \<^verbatim>\<open>s.replace(/^"+|"+$/g, "")\<close>: the run of quotes at the start and the run of quotes at
  the end are removed.
\<close>

definition strip_quotes :: "string \<Rightarrow> string" where
  "strip_quotes s =
     rev (dropWhile (\<lambda>c. c = CHR 0x22) (rev (dropWhile (\<lambda>c. c = CHR 0x22) s)))"

text \<open>\<^verbatim>\<open>s.endsWith(t)\<close> and \<^verbatim>\<open>s.includes(t)\<close>\<close>

definition ends_with :: "string \<Rightarrow> string \<Rightarrow> bool" where
  "ends_with s t = (length t \<le> length s \<and> drop (length s - length t) s = t)"

fun str_includes :: "string \<Rightarrow> string \<Rightarrow> bool" where
  "str_includes [] t = (t = [])"
| "str_includes (c # cs) t = (take (length t) (c # cs) = t \<or> str_includes cs t)"

text \<open>The decimal numeral of a natural number, as a template literal prints it.\<close>

fun show_nat :: "nat \<Rightarrow> string" where
  "show_nat n =
     (if n < 10 then [''0123456789'' ! n]
      else show_nat (n div 10) @ [''0123456789'' ! (n mod 10)])"

declare show_nat.simps [simp del]

section \<open>Numbers\<close>

text \<open>\<^verbatim>\<open>x > 0\<close>, \<^verbatim>\<open>Number.isFinite(x)\<close> and \<^verbatim>\<open>x === y\<close> on numbers.\<close>

fun positive :: "jsnum \<Rightarrow> bool" where
  "positive (Finite r) = (0 < r)"
| "positive PosInf = True"
| "positive NaN = False"
| "positive NegInf = False"

fun is_finite :: "jsnum \<Rightarrow> bool" where
  "is_finite (Finite r) = True"
| "is_finite x = False"

fun num_strict_eq :: "jsnum \<Rightarrow> jsnum \<Rightarrow> bool" where
  "num_strict_eq NaN y = False"
| "num_strict_eq x NaN = False"
| "num_strict_eq x y = (x = y)"

subsection \<open>The conversion of a string to a number\<close>

text \<open>
  The double that a real number is rounded to (IEEE 754, round to nearest, ties to even).
  \<open>bits n\<close> is the length of the binary numeral of \<open>n\<close>, so \<open>log2_floor a\<close> is the
  exponent \<open>e\<close> with \<open>2^e \<le> a < 2^(e+1)\<close> for a positive \<open>a\<close>.
\<close>

function bits :: "int \<Rightarrow> int" where
  "bits n = (if n \<le> 0 then 0 else bits (n div 2) + 1)"
  by pat_completeness auto
termination
  by (relation "measure nat") auto

declare bits.simps [simp del]

definition pow2 :: "int \<Rightarrow> rat" where
  "pow2 k = (if 0 \<le> k then 2 ^ nat k else 1 / 2 ^ nat (- k))"

definition log2_floor :: "rat \<Rightarrow> int" where
  "log2_floor a =
     (if 1 \<le> a then bits \<lfloor>a\<rfloor> - 1 else - bits (\<lceil>1 / a\<rceil> - 1))"

definition round_half_even :: "rat \<Rightarrow> int" where
  "round_half_even m =
     (let f = \<lfloor>m\<rfloor>; d = m - of_int f in
      if d < 1 / 2 then f
      else if 1 / 2 < d then f + 1
      else if even f then f else f + 1)"

text \<open>
  A double has 53 significant bits and its last bit is worth at least \<open>2^-1074\<close>: the
  magnitude is rounded to a multiple of \<open>2^x\<close>, where \<open>x\<close> is 52 below its exponent and
  not below \<open>-1074\<close>.  A result of \<open>2^1024\<close> or more is an infinity; a magnitude of at
  most \<open>2^-1075\<close> rounds to zero.  The sign of zero is not kept.
\<close>

definition to_double :: "rat \<Rightarrow> jsnum" where
  "to_double v =
     (if v = 0 then Finite 0
      else
        let a = \<bar>v\<bar>;
            x = max (log2_floor a - 52) (- 1074);
            r = of_int (round_half_even (a / pow2 x)) * pow2 x
        in if 1024 \<le> log2_floor r then (if 0 < v then PosInf else NegInf)
           else Finite (if 0 < v then r else - r))"

definition dec_digit :: "char \<Rightarrow> int option" where
  "dec_digit = map_of (zip ''0123456789'' [0, 1, 2, 3, 4, 5, 6, 7, 8, 9])"

definition hex_digit :: "char \<Rightarrow> int option" where
  "hex_digit = map_of (zip ''0123456789abcdefABCDEF''
       [0, 1, 2, 3, 4, 5, 6, 7, 8, 9, 10, 11, 12, 13, 14, 15, 10, 11, 12, 13, 14, 15])"

definition is_dec :: "char \<Rightarrow> bool" where
  "is_dec c = (dec_digit c \<noteq> None)"

text \<open>The number that a non-empty string of digits denotes in a base, if all are digits below it.\<close>

fun digits_value :: "int \<Rightarrow> int \<Rightarrow> string \<Rightarrow> int option" where
  "digits_value b acc [] = Some acc"
| "digits_value b acc (c # cs) =
     (case hex_digit c of
        None \<Rightarrow> None
      | Some d \<Rightarrow> if d < b then digits_value b (b * acc + d) cs else None)"

definition numeral_value :: "int \<Rightarrow> string \<Rightarrow> int option" where
  "numeral_value b ds = (if ds = [] then None else digits_value b 0 ds)"

text \<open>\<open>m * 10^e\<close>\<close>

definition scale10 :: "rat \<Rightarrow> int \<Rightarrow> rat" where
  "scale10 m e = (if 0 \<le> e then m * 10 ^ nat e else m / 10 ^ nat (- e))"

text \<open>The exponent part: nothing, or \<^verbatim>\<open>e\<close> or \<^verbatim>\<open>E\<close>, an optional sign, and digits.\<close>

definition exponent_part :: "string \<Rightarrow> int option" where
  "exponent_part s =
     (case s of
        [] \<Rightarrow> Some 0
      | c # t \<Rightarrow>
          if c = CHR ''e'' \<or> c = CHR ''E'' then
            (case t of
               [] \<Rightarrow> None
             | d # u \<Rightarrow>
                 if d = CHR ''-'' then map_option (\<lambda>n. - n) (numeral_value 10 u)
                 else if d = CHR ''+'' then numeral_value 10 u
                 else numeral_value 10 t)
          else None)"

text \<open>
  An unsigned decimal literal: digits, an optional point with optional digits, an
  optional exponent; or a point with digits and an optional exponent.
\<close>

definition unsigned_decimal :: "string \<Rightarrow> rat option" where
  "unsigned_decimal s =
     (let ip = takeWhile is_dec s;
          r = dropWhile is_dec s;
          point = (r \<noteq> [] \<and> hd r = CHR ''.'');
          fp = (if point then takeWhile is_dec (tl r) else []);
          ex = (if point then dropWhile is_dec (tl r) else r)
      in if ip = [] \<and> fp = [] then None
         else (case (digits_value 10 0 (ip @ fp), exponent_part ex) of
                 (Some m, Some e) \<Rightarrow> Some (scale10 (of_int m) (e - int (length fp)))
               | _ \<Rightarrow> None))"

text \<open>\<^verbatim>\<open>Infinity\<close> or an unsigned decimal literal.\<close>

definition unsigned_literal :: "string \<Rightarrow> jsnum" where
  "unsigned_literal s =
     (if s = ''Infinity'' then PosInf
      else (case unsigned_decimal s of None \<Rightarrow> NaN | Some v \<Rightarrow> to_double v))"

fun negate :: "jsnum \<Rightarrow> jsnum" where
  "negate (Finite r) = Finite (- r)"
| "negate PosInf = NegInf"
| "negate NegInf = PosInf"
| "negate NaN = NaN"

text \<open>A hexadecimal, octal or binary integer literal; it takes no sign.\<close>

definition non_decimal :: "string \<Rightarrow> int option" where
  "non_decimal s =
     (case s of
        z # x # ds \<Rightarrow>
          if z \<noteq> CHR ''0'' then None
          else if x = CHR ''x'' \<or> x = CHR ''X'' then numeral_value 16 ds
          else if x = CHR ''o'' \<or> x = CHR ''O'' then numeral_value 8 ds
          else if x = CHR ''b'' \<or> x = CHR ''B'' then numeral_value 2 ds
          else None
      | _ \<Rightarrow> None)"

text \<open>
  \<^verbatim>\<open>Number(s)\<close> for a string: white space is trimmed, the empty string is 0, a string
  that is no numeric literal is \<^verbatim>\<open>NaN\<close>.
\<close>

definition string_to_number :: "string \<Rightarrow> jsnum" where
  "string_to_number s =
     (let t = trim s in
      if t = [] then Finite 0
      else (case non_decimal t of
              Some n \<Rightarrow> to_double (of_int n)
            | None \<Rightarrow>
                if hd t = CHR ''-'' then negate (unsigned_literal (tl t))
                else if hd t = CHR ''+'' then unsigned_literal (tl t)
                else unsigned_literal t))"

subsection \<open>The conversion of a value to a number\<close>

text \<open>
  \<^verbatim>\<open>Number(v)\<close> turns an object or array into a primitive first (ECMAScript,
  OrdinaryToPrimitive): it calls \<^verbatim>\<open>valueOf\<close> and then \<^verbatim>\<open>toString\<close>, skips the one that is no
  function, takes the first result that is no object, and throws a \<^verbatim>\<open>TypeError\<close> when
  there is none.  An object parsed from JSON inherits \<^verbatim>\<open>valueOf\<close>, which returns the object
  itself, and \<^verbatim>\<open>toString\<close>, which returns \<^verbatim>\<open>"[object Object]"\<close>.  An own property \<^verbatim>\<open>toString\<close>
  of the JSON object hides the inherited method and is no function, so the conversion
  of such an object throws.  An array is joined with commas, each element converted to
  a string in the same way and \<^verbatim>\<open>null\<close> to the empty string.
\<close>

fun unconvertible :: "jsval \<Rightarrow> bool" where
  "unconvertible (JObj kvs) = (map_of kvs ''toString'' \<noteq> None)"
| "unconvertible (JArr xs) = list_ex unconvertible xs"
| "unconvertible v = False"

definition primitive_error :: jserror where
  "primitive_error = JSError ''TypeError'' ''Cannot convert object to primitive value''"

text \<open>
  The number of a value whose conversion does not throw.  An array of two or more
  elements joins to a string with a comma, which is no numeric literal; an array of one
  element joins to the string of that element, and a number printed and read again is
  the same number.
\<close>

fun number_of :: "jsval \<Rightarrow> jsnum" where
  "number_of JUndefined = NaN"
| "number_of JNull = Finite 0"
| "number_of (JBool b) = (if b then Finite 1 else Finite 0)"
| "number_of (JNum n) = n"
| "number_of (JStr s) = string_to_number s"
| "number_of (JObj kvs) = NaN"
| "number_of (JArr []) = Finite 0"
| "number_of (JArr [JUndefined]) = Finite 0"
| "number_of (JArr [JNull]) = Finite 0"
| "number_of (JArr [JBool b]) = NaN"
| "number_of (JArr [JNum n]) = n"
| "number_of (JArr [JStr s]) = string_to_number s"
| "number_of (JArr [JObj kvs]) = NaN"
| "number_of (JArr [JArr xs]) = number_of (JArr xs)"
| "number_of (JArr (x # y # zs)) = NaN"

text \<open>\<^verbatim>\<open>Number(v)\<close>\<close>

definition to_number :: "jsval \<Rightarrow> jserror + jsnum" where
  "to_number v = (if unconvertible v then Inl primitive_error else Inr (number_of v))"

section \<open>The status resolver\<close>

subsection \<open>Upstream responses\<close>

text \<open>
  What \<^verbatim>\<open>fetchWithTimeout(u)\<close> gives for a URL: the promise rejects (connection error, or
  the abort of the 5000 ms timer) or resolves to a response.  Of a response the handler
  reads the status code, and the body through \<^verbatim>\<open>res.json()\<close> or \<^verbatim>\<open>res.text()\<close>, each of which
  throws or returns.
\<close>

record response =
  http_status :: nat
  body_json :: "jserror + jsval"
  body_text :: "jserror + string"

datatype fetched = Rejected jserror | Resolved response

text \<open>\<^verbatim>\<open>res.ok\<close>\<close>

definition ok :: "response \<Rightarrow> bool" where
  "ok res = (200 \<le> http_status res \<and> http_status res \<le> 299)"

subsection \<open>The variables of the handler\<close>

datatype radio_status = Online | Offline

text \<open>
  \<open>requested\<close> is the log of the URLs passed to \<^verbatim>\<open>fetchWithTimeout\<close>, in order; the other
  fields are the variables declared before the loop.
\<close>

record state =
  locutor :: jsval
  programa :: jsval
  unicos :: jsval
  status :: radio_status
  lastError :: "jserror option"
  requested :: "string list"

definition initial :: state where
  "initial = \<lparr>locutor = JNull, programa = JNull, unicos = JNull, status = Offline,
              lastError = None, requested = []\<rparr>"

text \<open>
  How the \<^verbatim>\<open>try\<close> block of one iteration ends: at a \<^verbatim>\<open>break\<close>, at its last statement, or
  with a thrown error.
\<close>

datatype outcome = Broke | Fell | Threw jserror

text \<open>\<^verbatim>\<open>v > 0\<close>, used on \<^verbatim>\<open>unicos ?? 0\<close>, which is a number.\<close>

definition gt_zero :: "jsval \<Rightarrow> bool" where
  "gt_zero v = positive (number_of v)"

text \<open>
  \<^verbatim>\<open>Number(f ?? (unicos ?? 0) > 0 ? 1 : 0) === 1 ? "online" : "offline"\<close>, where \<open>f\<close> is the
  chain of the stream-status reads.  \<^verbatim>\<open>>\<close> binds tighter than \<^verbatim>\<open>??\<close>, and \<^verbatim>\<open>??\<close> tighter than
  \<^verbatim>\<open>? :\<close>: the condition of the conditional is \<^verbatim>\<open>f ?? ((unicos ?? 0) > 0)\<close>, and \<^verbatim>\<open>Number\<close> is
  applied to the number 1 or 0.
\<close>

definition status_of :: "jsval \<Rightarrow> jsval \<Rightarrow> radio_status" where
  "status_of f u =
     (if num_strict_eq
           (number_of (if truthy (js_coalesce f (JBool (gt_zero (js_coalesce u (JNum (Finite 0))))))
                       then JNum (Finite 1) else JNum (Finite 0)))
           (Finite 1)
      then Online else Offline)"

subsection \<open>The four parsers\<close>

text \<open>Lines 75 to 92: \<^verbatim>\<open>/statistics?json=1\<close>.\<close>

definition parse_statistics :: "jsval \<Rightarrow> state \<Rightarrow> state \<times> outcome" where
  "parse_statistics j st =
     (if nullish j then (st, Threw (read_error j ''streams''))
      else
        let streams = get_prop j ''streams'';
            stream = (if is_array streams \<and> array_length streams \<noteq> 0
                      then array_first streams else j)
        in
        if nullish stream then (st, Threw (read_error stream ''dj''))
        else
          let st1 = st\<lparr>locutor :=
                      js_coalesce (js_or (js_or (get_prop stream ''dj'') (get_prop j ''dj'')) JNull)
                        JNull\<rparr>;
              st2 = st1\<lparr>programa :=
                      js_coalesce
                        (js_or (js_or (js_or (get_prop stream ''songtitle'')
                                             (get_prop stream ''servertitle''))
                                      (get_prop j ''songtitle''))
                               JNull)
                        JNull\<rparr>
          in
          (case to_number
                  (js_coalesce
                     (js_coalesce
                        (js_coalesce
                           (js_coalesce (get_prop stream ''uniquelisteners'')
                                        (get_prop j ''uniquelisteners''))
                           (get_prop stream ''currentlisteners''))
                        (get_prop j ''currentlisteners''))
                     (JNum (Finite 0))) of
             Inl e \<Rightarrow> (st2, Threw e)
           | Inr n \<Rightarrow>
               let st3 = st2\<lparr>unicos := JNum n\<rparr>;
                   st4 = st3\<lparr>status :=
                           status_of
                             (js_coalesce (get_prop stream ''streamstatus'')
                                          (get_prop j ''streamstatus''))
                             (unicos st3)\<rparr>
               in (st4, Broke)))"

text \<open>Lines 96 to 101: the two \<^verbatim>\<open>/stats\<close> URLs.\<close>

definition parse_stats :: "jsval \<Rightarrow> state \<Rightarrow> state \<times> outcome" where
  "parse_stats j st =
     (if nullish j then (st, Threw (read_error j ''dj''))
      else
        let st1 = st\<lparr>locutor :=
                    js_coalesce (js_or (js_or (get_prop j ''dj'') (get_prop j ''songtitle'')) JNull)
                      JNull\<rparr>;
            st2 = st1\<lparr>programa :=
                    js_coalesce
                      (js_or (js_or (get_prop j ''songtitle'') (get_prop j ''servertitle'')) JNull)
                      JNull\<rparr>
        in
        (case to_number
                (js_coalesce
                   (js_coalesce (get_prop j ''uniquelisteners'') (get_prop j ''currentlisteners''))
                   (JNum (Finite 0))) of
           Inl e \<Rightarrow> (st2, Threw e)
         | Inr n \<Rightarrow>
             let st3 = st2\<lparr>unicos := JNum n\<rparr>;
                 st4 = st3\<lparr>status := status_of (get_prop j ''streamstatus'') (unicos st3)\<rparr>
             in (st4, Broke)))"

text \<open>Lines 105 to 117: \<^verbatim>\<open>/7.html\<close>.  With fewer than 7 fields nothing is assigned.\<close>

definition parse_7html :: "string \<Rightarrow> state \<Rightarrow> state \<times> outcome" where
  "parse_7html txt st =
     (let parts = split_commas (trim (strip_tags txt)) in
      if 7 \<le> length parts then
        let current = string_to_number (parts ! 0);
            title = strip_quotes (join_commas (drop 6 parts))
        in (st\<lparr>locutor := JNull,
                programa := js_or (JStr title) JNull,
                unicos := JNum (if is_finite current then current else Finite 0),
                status := (if positive current then Online else Offline)\<rparr>,
            Broke)
      else (st, Fell))"

text \<open>Lines 121 to 133: \<^verbatim>\<open>/status-json.xsl\<close>.\<close>

definition icecast_source :: "jsval \<Rightarrow> jsval" where
  "icecast_source j =
     (if truthy j \<and> truthy (get_prop j ''icestats'')
          \<and> is_array (get_prop (get_prop j ''icestats'') ''source'')
      then array_first (get_prop (get_prop j ''icestats'') ''source'')
      else js_or (opt_prop (opt_prop j ''icestats'') ''source'') (opt_prop j ''source''))"

definition parse_icecast :: "jsval \<Rightarrow> state \<Rightarrow> state \<times> outcome" where
  "parse_icecast j st =
     (let s = icecast_source j in
      case to_number (js_coalesce (opt_prop s ''listeners'') (JNum (Finite 0))) of
        Inl e \<Rightarrow> (st, Threw e)
      | Inr listeners \<Rightarrow>
          (st\<lparr>locutor := JNull,
              programa := js_or (js_or (opt_prop s ''title'') (opt_prop s ''server_name'')) JNull,
              unicos := JNum listeners,
              status := (if positive listeners then Online else Offline)\<rparr>,
           Broke))"

subsection \<open>The loop over the candidate URLs\<close>

definition BASE :: string where
  "BASE = ''http://sonicpanel.oficialserver.com:8342''"

text \<open>The five elements of \<^verbatim>\<open>urls\<close>, lines 53 to 59.\<close>

definition url_statistics :: string where
  "url_statistics = BASE @ ''/statistics?json=1''"

definition url_stats_sid :: string where
  "url_stats_sid = BASE @ ''/stats?sid=1&json=1''"

definition url_stats :: string where
  "url_stats = BASE @ ''/stats?json=1''"

definition url_7html :: string where
  "url_7html = BASE @ ''/7.html''"

definition url_icecast :: string where
  "url_icecast = BASE @ ''/status-json.xsl''"

definition urls :: "string list" where
  "urls = [url_statistics, url_stats_sid, url_stats, url_7html, url_icecast]"

text \<open>\<^verbatim>\<open>await res.json()\<close> followed by a parser.\<close>

definition with_json :: "response \<Rightarrow> (jsval \<Rightarrow> state \<Rightarrow> state \<times> outcome) \<Rightarrow> state
    \<Rightarrow> state \<times> outcome" where
  "with_json res parse st =
     (case body_json res of Inl e \<Rightarrow> (st, Threw e) | Inr j \<Rightarrow> parse j st)"

text \<open>Statements in sequence: the second runs when the first neither breaks nor throws.\<close>

definition and_then :: "state \<times> outcome \<Rightarrow> (state \<Rightarrow> state \<times> outcome) \<Rightarrow> state \<times> outcome" where
  "and_then r f = (case r of (st, Fell) \<Rightarrow> f st | (st, Broke) \<Rightarrow> r | (st, Threw e) \<Rightarrow> r)"

text \<open>The four \<^verbatim>\<open>if\<close> statements of lines 74, 95, 104 and 120.\<close>

definition statistics_block :: "string \<Rightarrow> response \<Rightarrow> state \<Rightarrow> state \<times> outcome" where
  "statistics_block u res st =
     (if ends_with u ''statistics?json=1'' then with_json res parse_statistics st
      else (st, Fell))"

definition stats_block :: "string \<Rightarrow> response \<Rightarrow> state \<Rightarrow> state \<times> outcome" where
  "stats_block u res st =
     (if str_includes u ''/stats'' then with_json res parse_stats st else (st, Fell))"

definition html_block :: "string \<Rightarrow> response \<Rightarrow> state \<Rightarrow> state \<times> outcome" where
  "html_block u res st =
     (if ends_with u ''/7.html'' then
        (case body_text res of
           Inl e \<Rightarrow> (st, Threw e)
         | Inr txt \<Rightarrow> parse_7html txt st)
      else (st, Fell))"

definition icecast_block :: "string \<Rightarrow> response \<Rightarrow> state \<Rightarrow> state \<times> outcome" where
  "icecast_block u res st =
     (if ends_with u ''status-json.xsl'' then with_json res parse_icecast st else (st, Fell))"

definition if_blocks :: "string \<Rightarrow> response \<Rightarrow> state \<Rightarrow> state \<times> outcome" where
  "if_blocks u res st =
     and_then (statistics_block u res st) (\<lambda>st.
     and_then (stats_block u res st) (\<lambda>st.
     and_then (html_block u res st) (\<lambda>st.
     icecast_block u res st)))"

text \<open>
  Lines 71 to 134, the \<^verbatim>\<open>try\<close> block of one iteration: the request, the test of
  \<^verbatim>\<open>res.ok\<close>, and the four \<^verbatim>\<open>if\<close> statements in sequence.
\<close>

definition try_block :: "(string \<Rightarrow> fetched) \<Rightarrow> string \<Rightarrow> state \<Rightarrow> state \<times> outcome" where
  "try_block fetch u st0 =
     (let st = st0\<lparr>requested := requested st0 @ [u]\<rparr> in
      case fetch u of
        Rejected e \<Rightarrow> (st, Threw e)
      | Resolved res \<Rightarrow>
          if \<not> ok res then (st, Threw (JSError ''Error'' (''HTTP '' @ show_nat (http_status res))))
          else if_blocks u res st)"

text \<open>
  One iteration with its \<^verbatim>\<open>catch\<close>: \<open>True\<close> when the loop is left by \<^verbatim>\<open>break\<close>, \<open>False\<close> when
  it goes on with the next URL.
\<close>

definition iteration :: "(string \<Rightarrow> fetched) \<Rightarrow> string \<Rightarrow> state \<Rightarrow> state \<times> bool" where
  "iteration fetch u st =
     (case try_block fetch u st of
        (st', Broke) \<Rightarrow> (st', True)
      | (st', Fell) \<Rightarrow> (st', False)
      | (st', Threw e) \<Rightarrow> (st'\<lparr>lastError := Some e\<rparr>, False))"

text \<open>\<^verbatim>\<open>for (const u of urls) { ... }\<close>\<close>

fun for_urls :: "(string \<Rightarrow> fetched) \<Rightarrow> string list \<Rightarrow> state \<Rightarrow> state" where
  "for_urls fetch [] st = st"
| "for_urls fetch (u # us) st =
     (case iteration fetch u st of
        (st', True) \<Rightarrow> st'
      | (st', False) \<Rightarrow> for_urls fetch us st')"

subsection \<open>The reply\<close>

text \<open>
  The handler answers with \<^verbatim>\<open>JSON.stringify\<close> of an object.  \<open>stringify v\<close> is the JSON
  value that the text \<^verbatim>\<open>JSON.stringify(v)\<close> denotes, for a value \<open>v\<close> that is the value of a
  property or an element of an array: \<^verbatim>\<open>NaN\<close> and the infinities are written as \<^verbatim>\<open>null\<close>,
  an \<^verbatim>\<open>undefined\<close> element of an array as \<^verbatim>\<open>null\<close>, and a property whose value is
  \<^verbatim>\<open>undefined\<close> is left out.  A finite number is written so that it reads back as the
  same number.  An object parsed from JSON has no \<^verbatim>\<open>toJSON\<close> method.
\<close>

fun stringify :: "jsval \<Rightarrow> jsval" where
  "stringify JUndefined = JNull"
| "stringify JNull = JNull"
| "stringify (JBool b) = JBool b"
| "stringify (JNum n) = (if is_finite n then JNum n else JNull)"
| "stringify (JStr s) = JStr s"
| "stringify (JArr xs) = JArr (map stringify xs)"
| "stringify (JObj kvs) =
     JObj (map (\<lambda>(k, v). (k, stringify v)) (filter (\<lambda>(k, v). v \<noteq> JUndefined) kvs))"

text \<open>
  The two objects the handler answers with: \<^verbatim>\<open>{ success: true, timestamp, data: { locutor,
  programa, unicos, status } }\<close> and \<^verbatim>\<open>{ success: false, error }\<close>.  None of the properties
  is ever \<^verbatim>\<open>undefined\<close>.
\<close>

record data =
  data_locutor :: jsval
  data_programa :: jsval
  data_unicos :: jsval
  data_status :: radio_status

datatype envelope = Success string data | Failure string

text \<open>\<^verbatim>\<open>JSON.stringify\<close> of such an object, as the JSON document that its text denotes.\<close>

definition stringify_envelope :: "envelope \<Rightarrow> envelope" where
  "stringify_envelope e =
     (case e of
        Success t d \<Rightarrow>
          Success t \<lparr>data_locutor = stringify (data_locutor d),
                     data_programa = stringify (data_programa d),
                     data_unicos = stringify (data_unicos d),
                     data_status = data_status d\<rparr>
      | Failure m \<Rightarrow> Failure m)"

text \<open>The reply: its status code, its headers and the JSON document of its body.\<close>

record reply =
  code :: nat
  headers :: "(string \<times> string) list"
  body :: envelope

definition reply_headers :: "(string \<times> string) list" where
  "reply_headers =
     [(''Content-Type'', ''application/json; charset=utf-8''),
      (''Access-Control-Allow-Origin'', ''*'')]"

text \<open>Lines 28 to 36.\<close>

definition okJson :: "envelope \<Rightarrow> reply" where
  "okJson d = \<lparr>code = 200, headers = reply_headers, body = stringify_envelope d\<rparr>"

text \<open>Lines 38 to 46, with the default status 500.\<close>

definition errorJson :: "string \<Rightarrow> reply" where
  "errorJson message =
     \<lparr>code = 500, headers = reply_headers, body = stringify_envelope (Failure message)\<rparr>"

text \<open>The placeholder is U+2014, the em dash.\<close>

definition placeholder :: string where
  "placeholder = [CHR 0xE2, CHR 0x80, CHR 0x94]"

text \<open>\<^verbatim>\<open>Nenhum endpoint do Shoutcast respondeu. Ultimo erro:\<close> with U+00DA for the \<^verbatim>\<open>U\<close>.\<close>

definition exhausted_prefix :: string where
  "exhausted_prefix =
     ''Nenhum endpoint do Shoutcast respondeu. '' @ [CHR 0xC3, CHR 0x9A] @ ''ltimo erro: ''"

text \<open>\<^verbatim>\<open>Erro ao obter status da radio\<close> with U+00E1 for the \<^verbatim>\<open>a\<close> of \<^verbatim>\<open>radio\<close>.\<close>

definition fallback_message :: string where
  "fallback_message = ''Erro ao obter status da r'' @ [CHR 0xC3, CHR 0xA1] @ ''dio''"

text \<open>
  Lines 50 to 157.  \<open>now\<close> is what \<^verbatim>\<open>new Date().toISOString()\<close> returns.  The only \<^verbatim>\<open>throw\<close>
  that reaches the outer \<^verbatim>\<open>catch\<close> is the one of line 142, whose message the \<^verbatim>\<open>catch\<close>
  passes to \<^verbatim>\<open>errorJson\<close> (the fallback message stands in for an empty one).  After the
  loop \<^verbatim>\<open>unicos\<close> is \<^verbatim>\<open>null\<close> or a number (lemma \<open>for_urls_unicos\<close>), so \<^verbatim>\<open>Number(unicos ?? 0)\<close>
  does not throw.
\<close>

definition GET :: "(string \<Rightarrow> fetched) \<Rightarrow> string \<Rightarrow> reply" where
  "GET fetch now =
     (let st = for_urls fetch urls initial in
      if unicos st = JNull \<and> programa st = JNull \<and> locutor st = JNull then
        (let message = exhausted_prefix @ last_error_to_string (lastError st)
         in errorJson (if message = [] then fallback_message else message))
      else
        okJson (Success now
          \<lparr>data_locutor = js_or (locutor st) (JStr placeholder),
           data_programa = js_or (programa st) (JStr placeholder),
           data_unicos = JNum (number_of (js_coalesce (unicos st) (JNum (Finite 0)))),
           data_status = status st\<rparr>))"

section \<open>Notions used in the statements\<close>

text \<open>The iteration for \<open>u\<close> leaves the loop by \<^verbatim>\<open>break\<close>; this does not depend on the state.\<close>

definition stops :: "(string \<Rightarrow> fetched) \<Rightarrow> string \<Rightarrow> bool" where
  "stops fetch u = snd (iteration fetch u initial)"

definition numeric :: "jsval \<Rightarrow> bool" where
  "numeric v = (case v of JNum n \<Rightarrow> True | _ \<Rightarrow> False)"

text \<open>
  What every statement of the \<^verbatim>\<open>try\<close> block keeps: it neither logs a request nor touches
  \<^verbatim>\<open>lastError\<close>, it ends in \<^verbatim>\<open>break\<close> only with a numeric listener count, it changes no
  variable when it falls through, the listener count stays \<^verbatim>\<open>null\<close> or a number, and how
  it ends does not depend on the state.
\<close>

definition sound :: "(state \<Rightarrow> state \<times> outcome) \<Rightarrow> bool" where
  "sound f =
     (\<forall>st. requested (fst (f st)) = requested st
         \<and> lastError (fst (f st)) = lastError st
         \<and> (snd (f st) = Broke \<longrightarrow> numeric (unicos (fst (f st))))
         \<and> (snd (f st) = Fell \<longrightarrow> fst (f st) = st)
         \<and> (unicos st = JNull \<or> numeric (unicos st)
              \<longrightarrow> unicos (fst (f st)) = JNull \<or> numeric (unicos (fst (f st))))
         \<and> (\<forall>st'. snd (f st') = snd (f st)))"

text \<open>The state once the request for \<open>u\<close> is logged.\<close>

definition fetch_log :: "string \<Rightarrow> state \<Rightarrow> state" where
  "fetch_log u st = st\<lparr>requested := requested st @ [u]\<rparr>"

text \<open>A transport failure: the fetch rejects, or the status is outside 200 to 299.\<close>

definition failed :: "fetched \<Rightarrow> bool" where
  "failed f = (case f of Rejected e \<Rightarrow> True | Resolved res \<Rightarrow> \<not> ok res)"


text \<open>
  The stream record of line 77, and the values that lines 81 to 87, 99 and 128 hand to
  \<^verbatim>\<open>Number\<close> as the listener count.
\<close>

definition first_stream :: "jsval \<Rightarrow> jsval" where
  "first_stream j =
     (if is_array (get_prop j ''streams'') \<and> array_length (get_prop j ''streams'') \<noteq> 0
      then array_first (get_prop j ''streams'') else j)"

definition statistics_count :: "jsval \<Rightarrow> jsval" where
  "statistics_count j =
     js_coalesce
       (js_coalesce
          (js_coalesce
             (js_coalesce (get_prop (first_stream j) ''uniquelisteners'')
                          (get_prop j ''uniquelisteners''))
             (get_prop (first_stream j) ''currentlisteners''))
          (get_prop j ''currentlisteners''))
       (JNum (Finite 0))"

definition stats_count :: "jsval \<Rightarrow> jsval" where
  "stats_count j =
     js_coalesce (js_coalesce (get_prop j ''uniquelisteners'') (get_prop j ''currentlisteners''))
       (JNum (Finite 0))"

definition icecast_count :: "jsval \<Rightarrow> jsval" where
  "icecast_count j = js_coalesce (opt_prop (icecast_source j) ''listeners'') (JNum (Finite 0))"

text \<open>The names of the properties that the three JSON parsers read.\<close>

definition expected_fields :: "string list" where
  "expected_fields =
     [''streams'', ''dj'', ''songtitle'', ''servertitle'', ''uniquelisteners'',
      ''currentlisteners'', ''streamstatus'', ''icestats'', ''source'', ''listeners'',
      ''title'', ''server_name'']"

text \<open>A reply with its timestamp erased.\<close>

definition without_timestamp :: "reply \<Rightarrow> reply" where
  "without_timestamp r =
     r\<lparr>body := (case body r of Success t d \<Rightarrow> Success [] d | Failure m \<Rightarrow> Failure m)\<rparr>"

subsection \<open>Upstream servers for the examples\<close>

text \<open>
  An endpoint that is down, one that answers 200 with a JSON body, one that answers 200
  with a text body, one that answers 404; a server on which a single URL answers; and
  a server on which the first URL answers 404 and the second an empty JSON object.
\<close>

definition down :: fetched where
  "down = Rejected (JSError ''TypeError'' ''fetch failed'')"

definition json_reply :: "jsval \<Rightarrow> fetched" where
  "json_reply j = Resolved \<lparr>http_status = 200, body_json = Inr j,
      body_text = Inl (JSError ''TypeError'' ''Body is unusable'')\<rparr>"

definition text_reply :: "string \<Rightarrow> fetched" where
  "text_reply t = Resolved \<lparr>http_status = 200,
      body_json = Inl (JSError ''SyntaxError'' ''Unexpected token''), body_text = Inr t\<rparr>"

definition not_found :: fetched where
  "not_found = Resolved \<lparr>http_status = 404,
      body_json = Inl (JSError ''SyntaxError'' ''Unexpected token''), body_text = Inr ''Not Found''\<rparr>"

definition only :: "string \<Rightarrow> fetched \<Rightarrow> string \<Rightarrow> fetched" where
  "only u r v = (if v = u then r else down)"

definition second_answers :: "string \<Rightarrow> fetched" where
  "second_answers u =
     (if u = url_statistics then not_found
      else if u = url_stats_sid then json_reply (JObj [])
      else down)"

text \<open>A server that differs from \<open>fetch\<close> at a URL the handler never requests.\<close>

definition elsewhere :: "(string \<Rightarrow> fetched) \<Rightarrow> string \<Rightarrow> fetched" where
  "elsewhere fetch u = (if u = ''http://example.org/'' then json_reply JNull else fetch u)"

text \<open>
  The payload \<^verbatim>\<open>{"dj": "Ana", "uniquelisteners": {"toString": 1}}\<close>: its listener count
  is an object that \<^verbatim>\<open>Number\<close> cannot convert.
\<close>

definition unconvertible_count :: jsval where
  "unconvertible_count =
     JObj [(''dj'', JStr ''Ana''),
           (''uniquelisteners'', JObj [(''toString'', JNum (Finite 1))])]"

section \<open>Properties of the model\<close>

subsection \<open>Which statement handles which URL\<close>

text \<open>The tests of lines 74, 95, 104 and 120 on each of the five URLs.\<close>

lemma dispatch_statistics: "ends_with url_statistics ''statistics?json=1''"
  by code_simp

lemma dispatch_stats_sid:
  "\<not> ends_with url_stats_sid ''statistics?json=1''"
  "str_includes url_stats_sid ''/stats''"
  by code_simp+

lemma dispatch_stats:
  "\<not> ends_with url_stats ''statistics?json=1''"
  "str_includes url_stats ''/stats''"
  by code_simp+

lemma dispatch_7html:
  "\<not> ends_with url_7html ''statistics?json=1''"
  "\<not> str_includes url_7html ''/stats''"
  "ends_with url_7html ''/7.html''"
  "\<not> ends_with url_7html ''status-json.xsl''"
  by code_simp+

lemma dispatch_icecast:
  "\<not> ends_with url_icecast ''statistics?json=1''"
  "\<not> str_includes url_icecast ''/stats''"
  "\<not> ends_with url_icecast ''/7.html''"
  "ends_with url_icecast ''status-json.xsl''"
  by code_simp+

lemma urls_distinct: "distinct urls"
  by code_simp

subsection \<open>What the statements of the try block keep\<close>

lemma sound_parse_statistics: "sound (parse_statistics j)"
  by (simp add: sound_def parse_statistics_def numeric_def Let_def split: sum.splits)

lemma sound_parse_stats: "sound (parse_stats j)"
  by (simp add: sound_def parse_stats_def numeric_def Let_def split: sum.splits)

lemma sound_parse_7html: "sound (parse_7html txt)"
  by (simp add: sound_def parse_7html_def numeric_def Let_def)

lemma sound_parse_icecast: "sound (parse_icecast j)"
  by (simp add: sound_def parse_icecast_def numeric_def Let_def split: sum.splits)

lemma sound_skip: "sound (\<lambda>st. (st, Fell))"
  by (simp add: sound_def)

lemma sound_throw: "sound (\<lambda>st. (st, Threw e))"
  by (simp add: sound_def)

lemma sound_with_json:
  assumes "\<And>j. sound (parse j)"
  shows "sound (with_json res parse)"
proof (cases "body_json res")
  case (Inl e)
  then have "with_json res parse = (\<lambda>st. (st, Threw e))"
    by (simp add: with_json_def fun_eq_iff)
  then show ?thesis by (simp add: sound_throw)
next
  case (Inr j)
  then have "with_json res parse = parse j"
    by (simp add: with_json_def fun_eq_iff)
  then show ?thesis by (simp add: assms)
qed

lemma sound_and_then:
  assumes f: "sound f" and g: "sound g"
  shows "sound (\<lambda>st. and_then (f st) g)"
  unfolding sound_def
proof (intro allI)
  fix st
  obtain s1 o1 where r: "f st = (s1, o1)" by (cases "f st")
  have o: "snd (f st') = o1" for st' using f r by (metis sound_def snd_conv)
  show "requested (fst (and_then (f st) g)) = requested st \<and>
          lastError (fst (and_then (f st) g)) = lastError st \<and>
          (snd (and_then (f st) g) = Broke \<longrightarrow> numeric (unicos (fst (and_then (f st) g)))) \<and>
          (snd (and_then (f st) g) = Fell \<longrightarrow> fst (and_then (f st) g) = st) \<and>
          (unicos st = JNull \<or> numeric (unicos st) \<longrightarrow>
           unicos (fst (and_then (f st) g)) = JNull \<or> numeric (unicos (fst (and_then (f st) g)))) \<and>
          (\<forall>st'. snd (and_then (f st') g) = snd (and_then (f st) g))"
  proof (cases o1)
    case Fell
    with f r have s1: "s1 = st" by (metis sound_def fst_conv snd_conv)
    have "f st' = (st', Fell)" for st'
      using o [of st'] Fell f by (metis sound_def prod.collapse)
    then have e: "and_then (f st') g = g st'" for st' by (simp add: and_then_def)
    show ?thesis unfolding e using g by (simp add: sound_def)
  next
    case Broke
    then have e: "and_then (f st') g = f st'" for st'
      using o [of st'] by (cases "f st'") (simp add: and_then_def)
    show ?thesis unfolding e using f by (simp add: sound_def)
  next
    case (Threw x)
    then have e: "and_then (f st') g = f st'" for st'
      using o [of st'] by (cases "f st'") (simp add: and_then_def)
    show ?thesis unfolding e using f by (simp add: sound_def)
  qed
qed

lemma sound_statistics_block: "sound (statistics_block u res)"
  unfolding statistics_block_def [abs_def]
  by (cases "ends_with u ''statistics?json=1''")
     (simp_all add: sound_skip sound_with_json sound_parse_statistics)

lemma sound_stats_block: "sound (stats_block u res)"
  unfolding stats_block_def [abs_def]
  by (cases "str_includes u ''/stats''")
     (simp_all add: sound_skip sound_with_json sound_parse_stats)

lemma sound_html_block: "sound (html_block u res)"
  unfolding html_block_def [abs_def]
  by (cases "ends_with u ''/7.html''"; cases "body_text res")
     (simp_all add: sound_skip sound_throw sound_parse_7html)

lemma sound_icecast_block: "sound (icecast_block u res)"
  unfolding icecast_block_def [abs_def]
  by (cases "ends_with u ''status-json.xsl''")
     (simp_all add: sound_skip sound_with_json sound_parse_icecast)

lemma sound_if_blocks: "sound (if_blocks u res)"
  unfolding if_blocks_def [abs_def]
  by (intro sound_and_then sound_statistics_block sound_stats_block sound_html_block
        sound_icecast_block)

subsection \<open>One iteration\<close>

lemma try_block_unfold:
  "try_block fetch u st =
     (case fetch u of
        Rejected e \<Rightarrow> (fetch_log u st, Threw e)
      | Resolved res \<Rightarrow>
          if \<not> ok res
          then (fetch_log u st, Threw (JSError ''Error'' (''HTTP '' @ show_nat (http_status res))))
          else if_blocks u res (fetch_log u st))"
  by (simp add: try_block_def fetch_log_def Let_def split: fetched.splits)

lemma try_block_requested: "requested (fst (try_block fetch u st)) = requested st @ [u]"
proof (cases "fetch u")
  case (Rejected e)
  then show ?thesis by (simp add: try_block_unfold fetch_log_def)
next
  case (Resolved res)
  have "requested (fst (if_blocks u res (fetch_log u st))) = requested (fetch_log u st)"
    using sound_if_blocks [of u res] by (simp add: sound_def)
  with Resolved show ?thesis by (simp add: try_block_unfold fetch_log_def)
qed

lemma try_block_lastError: "lastError (fst (try_block fetch u st)) = lastError st"
proof (cases "fetch u")
  case (Rejected e)
  then show ?thesis by (simp add: try_block_unfold fetch_log_def)
next
  case (Resolved res)
  have "lastError (fst (if_blocks u res (fetch_log u st))) = lastError (fetch_log u st)"
    using sound_if_blocks [of u res] by (simp add: sound_def)
  with Resolved show ?thesis by (simp add: try_block_unfold fetch_log_def)
qed

lemma try_block_broke:
  assumes "snd (try_block fetch u st) = Broke"
  shows "numeric (unicos (fst (try_block fetch u st)))"
proof (cases "fetch u")
  case (Rejected e)
  with assms show ?thesis by (simp add: try_block_unfold)
next
  case (Resolved res)
  with assms have ok: "ok res" and b: "snd (if_blocks u res (fetch_log u st)) = Broke"
    by (auto simp: try_block_unfold split: if_splits)
  from b have "numeric (unicos (fst (if_blocks u res (fetch_log u st))))"
    using sound_if_blocks [of u res] by (simp add: sound_def)
  with Resolved ok show ?thesis by (simp add: try_block_unfold)
qed


lemma try_block_outcome: "snd (try_block fetch u st) = snd (try_block fetch u st')"
proof (cases "fetch u")
  case (Rejected e)
  then show ?thesis by (simp add: try_block_unfold)
next
  case (Resolved res)
  have "snd (if_blocks u res (fetch_log u st)) = snd (if_blocks u res (fetch_log u st'))"
    using sound_if_blocks [of u res] by (simp add: sound_def)
  with Resolved show ?thesis by (simp add: try_block_unfold)
qed

lemma iteration_stops: "snd (iteration fetch u st) = (snd (try_block fetch u st) = Broke)"
  by (cases "try_block fetch u st") (simp add: iteration_def split: outcome.splits)

lemma stops_iff: "stops fetch u = (snd (try_block fetch u st) = Broke)"
  unfolding stops_def iteration_stops by (simp add: try_block_outcome [of fetch u initial st])

lemma iteration_requested: "requested (fst (iteration fetch u st)) = requested st @ [u]"
  using try_block_requested [of fetch u st]
  by (cases "try_block fetch u st") (simp add: iteration_def split: outcome.splits)


lemma iteration_stopped:
  assumes "stops fetch u"
  shows "iteration fetch u st = (fst (try_block fetch u st), True)"
    and "numeric (unicos (fst (iteration fetch u st)))"
proof -
  have b: "snd (try_block fetch u st) = Broke" using assms stops_iff [of fetch u st] by simp
  then show "iteration fetch u st = (fst (try_block fetch u st), True)"
    by (cases "try_block fetch u st") (simp add: iteration_def)
  with try_block_broke [OF b] show "numeric (unicos (fst (iteration fetch u st)))" by simp
qed

subsection \<open>The loop\<close>

text \<open>
  The loop requests the URLs up to and including the first at which it stops; the
  listener count is \<^verbatim>\<open>null\<close> or a number throughout, and a number once the loop has stopped;
  the loop reads the responses of the URLs of its list only.
\<close>

lemma for_urls_step:
  "for_urls fetch (u # us) st =
     (if stops fetch u then fst (iteration fetch u st)
      else for_urls fetch us (fst (iteration fetch u st)))"
proof -
  have "snd (iteration fetch u st) = stops fetch u"
    by (simp add: iteration_stops stops_iff [of fetch u st])
  then show ?thesis by (cases "iteration fetch u st") auto
qed

declare for_urls.simps(2) [simp del]

lemma for_urls_requested:
  "requested (for_urls fetch us st) =
     requested st @ takeWhile (\<lambda>u. \<not> stops fetch u) us
       @ take 1 (dropWhile (\<lambda>u. \<not> stops fetch u) us)"
proof (induction us arbitrary: st)
  case Nil
  show ?case by simp
next
  case (Cons u us)
  show ?case
    by (simp add: for_urls_step Cons.IH iteration_requested)
qed


lemma for_urls_not_stopped:
  "unicos (for_urls fetch us st) = JNull \<Longrightarrow> \<forall>u\<in>set us. \<not> stops fetch u"
proof (induction us arbitrary: st)
  case Nil
  show ?case by simp
next
  case (Cons u us)
  show ?case
  proof (cases "stops fetch u")
    case True
    with Cons.prems iteration_stopped(2) [OF True, of st] show ?thesis
      by (simp add: for_urls_step numeric_def)
  next
    case False
    with Cons show ?thesis by (simp add: for_urls_step)
  qed
qed

lemma for_urls_snoc:
  "\<forall>v\<in>set us. \<not> stops fetch v \<Longrightarrow>
   for_urls fetch (us @ [u]) st = fst (iteration fetch u (for_urls fetch us st))"
proof (induction us arbitrary: st)
  case Nil
  show ?case by (simp add: for_urls_step)
next
  case (Cons v us)
  then show ?case by (simp add: for_urls_step)
qed

lemma iteration_cong: "fetch u = fetch' u \<Longrightarrow> iteration fetch u st = iteration fetch' u st"
  by (simp add: iteration_def try_block_def)

lemma for_urls_cong:
  "\<forall>u\<in>set us. fetch u = fetch' u \<Longrightarrow> for_urls fetch us st = for_urls fetch' us st"
proof (induction us arbitrary: st)
  case Nil
  show ?case by simp
next
  case (Cons u us)
  then have "iteration fetch u st = iteration fetch' u st"
    by (intro iteration_cong) simp
  with Cons show ?case by (simp add: for_urls.simps(2))
qed

subsection \<open>The try block at each of the five URLs\<close>

lemma and_then_done: "snd r \<noteq> Fell \<Longrightarrow> and_then r f = r"
  by (cases r) (simp add: and_then_def split: outcome.splits)

lemma and_then_fell: "and_then (st, Fell) f = f st"
  by (simp add: and_then_def)

lemma and_then_skip: "and_then r (\<lambda>st. (st, Fell)) = r"
  by (cases r) (simp add: and_then_def split: outcome.splits)

lemma parse_statistics_not_fell: "snd (parse_statistics j st) \<noteq> Fell"
  by (simp add: parse_statistics_def Let_def split: sum.splits)

lemma parse_stats_not_fell: "snd (parse_stats j st) \<noteq> Fell"
  by (simp add: parse_stats_def Let_def split: sum.splits)

lemma parse_icecast_not_fell: "snd (parse_icecast j st) \<noteq> Fell"
  by (simp add: parse_icecast_def Let_def split: sum.splits)

lemma with_json_not_fell:
  "(\<And>j s. snd (parse j s) \<noteq> Fell) \<Longrightarrow> snd (with_json res parse st) \<noteq> Fell"
  by (simp add: with_json_def split: sum.splits)

lemma if_blocks_statistics:
  "if_blocks url_statistics res st = with_json res parse_statistics st"
  by (simp add: if_blocks_def statistics_block_def dispatch_statistics and_then_done
        with_json_not_fell parse_statistics_not_fell)

lemma if_blocks_stats_sid:
  "if_blocks url_stats_sid res st = with_json res parse_stats st"
  by (simp add: if_blocks_def statistics_block_def stats_block_def dispatch_stats_sid
        and_then_done and_then_fell with_json_not_fell parse_stats_not_fell)

lemma if_blocks_stats:
  "if_blocks url_stats res st = with_json res parse_stats st"
  by (simp add: if_blocks_def statistics_block_def stats_block_def dispatch_stats
        and_then_done and_then_fell with_json_not_fell parse_stats_not_fell)

lemma if_blocks_7html:
  "if_blocks url_7html res st =
     (case body_text res of Inl e \<Rightarrow> (st, Threw e) | Inr txt \<Rightarrow> parse_7html txt st)"
  by (simp add: if_blocks_def statistics_block_def stats_block_def html_block_def
        icecast_block_def dispatch_7html and_then_fell and_then_skip)

lemma if_blocks_icecast:
  "if_blocks url_icecast res st = with_json res parse_icecast st"
  by (simp add: if_blocks_def statistics_block_def stats_block_def html_block_def
        icecast_block_def dispatch_icecast and_then_fell)

lemma urls_cases:
  assumes "u \<in> set urls"
  obtains "u = url_statistics" | "u = url_stats_sid" | "u = url_stats" | "u = url_7html"
    | "u = url_icecast"
  using assms by (auto simp: urls_def)

subsection \<open>Transport failures and exhaustion\<close>

lemma failed_try_block:
  "failed (fetch u) \<Longrightarrow> \<exists>e. try_block fetch u st = (fetch_log u st, Threw e)"
  by (cases "fetch u") (simp_all add: failed_def try_block_unfold)

lemma failed_iteration:
  assumes "failed (fetch u)"
  shows "snd (iteration fetch u st) = False"
    and "locutor (fst (iteration fetch u st)) = locutor st"
    and "programa (fst (iteration fetch u st)) = programa st"
    and "unicos (fst (iteration fetch u st)) = unicos st"
proof -
  from failed_try_block [of fetch u st, OF assms] obtain e where "try_block fetch u st = (fetch_log u st, Threw e)"
    by blast
  then have i: "iteration fetch u st = ((fetch_log u st)\<lparr>lastError := Some e\<rparr>, False)"
    by (simp add: iteration_def)
  show "snd (iteration fetch u st) = False" "locutor (fst (iteration fetch u st)) = locutor st"
    "programa (fst (iteration fetch u st)) = programa st"
    "unicos (fst (iteration fetch u st)) = unicos st"
    by (simp_all add: i fetch_log_def)
qed

lemma failed_for_urls:
  "\<forall>u\<in>set us. failed (fetch u) \<Longrightarrow>
     locutor (for_urls fetch us st) = locutor st \<and> programa (for_urls fetch us st) = programa st
     \<and> unicos (for_urls fetch us st) = unicos st"
proof (induction us arbitrary: st)
  case Nil
  show ?case by simp
next
  case (Cons u us)
  then have f: "failed (fetch u)" by simp
  have n: "\<not> stops fetch u"
    using failed_iteration(1) [of fetch u initial, OF f] by (simp add: stops_def)
  show ?case using Cons failed_iteration(2-4) [of fetch u st, OF f] n by (simp add: for_urls_step)
qed

lemma last_url_not_fell: "snd (try_block fetch url_icecast st) \<noteq> Fell"
  by (cases "fetch url_icecast")
     (simp_all add: try_block_unfold if_blocks_icecast with_json_not_fell parse_icecast_not_fell)

lemma exhausted_last_error:
  assumes "unicos (for_urls fetch urls initial) = JNull"
  shows "\<exists>e. lastError (for_urls fetch urls initial) = Some e
            \<and> snd (try_block fetch (last urls) initial) = Threw e"
proof -
  let ?u = "url_icecast"
  let ?us = "butlast urls"
  have u: "urls = ?us @ [?u]" "last urls = ?u" by (simp_all add: urls_def)
  from for_urls_not_stopped [OF assms] have ns: "\<forall>v\<in>set urls. \<not> stops fetch v" .
  then have "\<forall>v\<in>set ?us. \<not> stops fetch v" by (metis in_set_butlastD)
  from for_urls_snoc [OF this, of ?u initial]
  have fin: "for_urls fetch urls initial = fst (iteration fetch ?u (for_urls fetch ?us initial))"
    using u(1) by simp
  let ?s = "for_urls fetch ?us initial"
  have "\<not> stops fetch ?u" using ns u(1) by (metis in_set_conv_decomp)
  then have nb: "snd (try_block fetch ?u ?s) \<noteq> Broke" using stops_iff [of fetch ?u ?s] by simp
  obtain s' e where t: "try_block fetch ?u ?s = (s', Threw e)"
    using nb last_url_not_fell [of fetch ?s]
    by (cases "try_block fetch ?u ?s"; cases "snd (try_block fetch ?u ?s)") auto
  then have "iteration fetch ?u ?s = (s'\<lparr>lastError := Some e\<rparr>, False)"
    by (simp add: iteration_def)
  with fin have "lastError (for_urls fetch urls initial) = Some e" by simp
  moreover have "snd (try_block fetch ?u initial) = Threw e"
    using try_block_outcome [of fetch ?u initial ?s] t by simp
  ultimately show ?thesis using u(2) by auto
qed

lemma stringify_string: "stringify v = JStr s \<longleftrightarrow> v = JStr s"
  by (cases v) (auto split: if_splits)

subsection \<open>The parsers\<close>

lemma truthy_not_nullish: "truthy v \<Longrightarrow> \<not> nullish v"
  by (cases v) simp_all

lemma coalesce_or_null: "js_coalesce (js_or a JNull) JNull = js_or a JNull"
  by (auto simp: js_coalesce_def js_or_def dest: truthy_not_nullish)

lemma stats_iteration:
  assumes "u = url_stats_sid \<or> u = url_stats" and "fetch u = Resolved res" and "ok res"
    and "body_json res = Inr j"
  shows "try_block fetch u st = parse_stats j (fetch_log u st)"
  using assms
  by (auto simp: try_block_unfold if_blocks_stats_sid if_blocks_stats with_json_def)

text \<open>
  Splitting at the commas and joining with commas are inverse to each other, so the
  fields from index 6 on, joined again, are the text after the sixth comma.
\<close>

lemma split_commas_not_Nil: "split_commas s \<noteq> []"
  by (induction s) (auto split: list.splits)

lemma join_commas_Cons: "ps \<noteq> [] \<Longrightarrow> join_commas (p # ps) = p @ CHR '','' # join_commas ps"
  by (cases ps) simp_all

lemma join_commas_push: "join_commas ((c # p) # ps) = c # join_commas (p # ps)"
  by (cases ps) simp_all

lemma join_split_commas: "join_commas (split_commas s) = s"
proof (induction s)
  case Nil
  show ?case by simp
next
  case (Cons c cs)
  show ?case
  proof (cases "c = CHR '',''")
    case True
    with Cons show ?thesis by (simp add: join_commas_Cons split_commas_not_Nil)
  next
    case False
    obtain p ps where s: "split_commas cs = p # ps"
      using split_commas_not_Nil [of cs] by (cases "split_commas cs") auto
    with False Cons show ?thesis by (simp add: join_commas_push)
  qed
qed

lemma join_commas_append:
  "ps \<noteq> [] \<Longrightarrow> qs \<noteq> [] \<Longrightarrow>
   join_commas (ps @ qs) = join_commas ps @ CHR '','' # join_commas qs"
proof (induction ps)
  case Nil
  then show ?case by simp
next
  case (Cons p ps)
  show ?case
  proof (cases "ps = []")
    case True
    with Cons.prems show ?thesis by (simp add: join_commas_Cons)
  next
    case False
    with Cons show ?thesis by (simp add: join_commas_Cons)
  qed
qed

lemma title_is_rest_of_text:
  assumes "7 \<le> length (split_commas s)"
  shows "s = join_commas (take 6 (split_commas s)) @ CHR '','' # join_commas (drop 6 (split_commas s))"
proof -
  let ?ps = "split_commas s"
  have "take 6 ?ps \<noteq> []" "drop 6 ?ps \<noteq> []" using assms by auto
  then have "join_commas (take 6 ?ps @ drop 6 ?ps)
      = join_commas (take 6 ?ps) @ CHR '','' # join_commas (drop 6 ?ps)"
    by (rule join_commas_append)
  then show ?thesis by (simp add: join_split_commas)
qed

lemma parse_7html_fields:
  assumes "parts = split_commas (trim (strip_tags page))" and "7 \<le> length parts"
  shows "parse_7html page st
           = (st\<lparr>locutor := JNull,
                 programa :=
                   (if strip_quotes (join_commas (drop 6 parts)) = [] then JNull
                    else JStr (strip_quotes (join_commas (drop 6 parts)))),
                 unicos :=
                   JNum (if is_finite (string_to_number (hd parts))
                         then string_to_number (hd parts) else Finite 0),
                 status := (if positive (string_to_number (hd parts)) then Online else Offline)\<rparr>,
              Broke)"
proof -
  from assms(2) have "parts \<noteq> []" by auto
  then have "parts ! 0 = hd parts" by (simp add: hd_conv_nth)
  with assms show ?thesis by (simp add: parse_7html_def Let_def js_or_def)
qed

lemma example_7html:
  "parse_7html ''2,10,100,0,128,0,Song - Artist'' st
     = (st\<lparr>locutor := JNull, programa := JStr ''Song - Artist'', unicos := JNum (Finite 2),
          status := Online\<rparr>, Broke)"
proof -
  have parts: "split_commas (trim (strip_tags ''2,10,100,0,128,0,Song - Artist''))
      = [''2'', ''10'', ''100'', ''0'', ''128'', ''0'', ''Song - Artist'']"
    by code_simp
  have n: "string_to_number ''2'' = Finite 2" by code_simp
  have q: "strip_quotes ''Song - Artist'' = ''Song - Artist''" by code_simp
  show ?thesis
    by (simp add: parse_7html_fields [OF parts [symmetric]] n q)
qed

text \<open>
  The status expression of Shapes A and B: a flag that is present decides by its
  truthiness; without a flag the listener count decides.  Without a flag, a parser that
  runs to its end sets the status online exactly when the listener count it sets is
  positive, except for Shape C when field 0 converts to \<^verbatim>\<open>Infinity\<close>.
\<close>

lemma status_with_flag:
  "\<not> nullish f \<Longrightarrow> status_of f u = (if truthy f then Online else Offline)"
  by (simp add: status_of_def js_coalesce_def)

lemma status_without_flag:
  "nullish f \<Longrightarrow> status_of f (JNum n) = (if positive n then Online else Offline)"
  by (simp add: status_of_def js_coalesce_def gt_zero_def)

lemma online_iff_positive_stats:
  assumes "nullish (get_prop j ''streamstatus'')" and "parse_stats j st = (st', Broke)"
  shows "\<exists>n. unicos st' = JNum n \<and> (status st' = Online \<longleftrightarrow> positive n)"
  using assms
  by (auto simp: parse_stats_def Let_def status_without_flag split: if_splits sum.splits)

lemma online_iff_positive_statistics:
  assumes "nullish (get_prop j ''streamstatus'')"
    and "nullish (get_prop (array_first (get_prop j ''streams'')) ''streamstatus'')"
    and "parse_statistics j st = (st', Broke)"
  shows "\<exists>n. unicos st' = JNum n \<and> (status st' = Online \<longleftrightarrow> positive n)"
proof -
  let ?streams = "get_prop j ''streams''"
  let ?stream = "if is_array ?streams \<and> array_length ?streams \<noteq> 0 then array_first ?streams else j"
  have "nullish (js_coalesce (get_prop ?stream ''streamstatus'') (get_prop j ''streamstatus''))"
    using assms(1,2) by (simp add: js_coalesce_def)
  with assms(3) show ?thesis
    by (auto simp: parse_statistics_def Let_def status_without_flag split: if_splits sum.splits)
qed

lemma online_iff_positive_icecast:
  assumes "parse_icecast j st = (st', Broke)"
  shows "\<exists>n. unicos st' = JNum n \<and> (status st' = Online \<longleftrightarrow> positive n)"
  using assms by (auto simp: parse_icecast_def Let_def split: sum.splits)

lemma online_iff_positive_7html:
  assumes "parse_7html page st = (st', Broke)"
    and "string_to_number (hd (split_commas (trim (strip_tags page)))) \<noteq> PosInf"
  shows "\<exists>n. unicos st' = JNum n \<and> (status st' = Online \<longleftrightarrow> positive n)"
proof -
  let ?parts = "split_commas (trim (strip_tags page))"
  from assms(1) have len: "7 \<le> length ?parts"
    by (auto simp: parse_7html_def Let_def split: if_splits)
  have "positive (if is_finite c then c else Finite 0) = positive c" if "c \<noteq> PosInf" for c
    using that by (cases c) simp_all
  with assms show ?thesis
    by (auto simp: parse_7html_fields [OF refl len])
qed

text \<open>
  The parsers of the JSON shapes end in \<^verbatim>\<open>break\<close> with a numeric listener count or throw
  a \<^verbatim>\<open>TypeError\<close>; on a payload without any of the fields they end in \<^verbatim>\<open>break\<close> with the
  count 0.  An iteration that does not stop has thrown, or is the one of \<^verbatim>\<open>/7.html\<close> with
  fewer than 7 fields.
\<close>

lemma parse_statistics_outcome:
  "snd (parse_statistics j st) =
     (if nullish j then Threw (read_error j ''streams'')
      else if nullish (first_stream j) then Threw (read_error (first_stream j) ''dj'')
      else if unconvertible (statistics_count j) then Threw primitive_error
      else Broke)"
  by (simp add: parse_statistics_def first_stream_def statistics_count_def Let_def
        to_number_def)

lemma parse_statistics_count:
  assumes "\<not> nullish j" and "\<not> nullish (first_stream j)"
    and "\<not> unconvertible (statistics_count j)"
  shows "unicos (fst (parse_statistics j st)) = JNum (number_of (statistics_count j))"
  using assms
  by (simp add: parse_statistics_def first_stream_def statistics_count_def Let_def
        to_number_def)

lemma parse_stats_outcome:
  "snd (parse_stats j st) =
     (if nullish j then Threw (read_error j ''dj'')
      else if unconvertible (stats_count j) then Threw primitive_error
      else Broke)"
  by (simp add: parse_stats_def stats_count_def Let_def to_number_def)

lemma parse_stats_count:
  assumes "\<not> nullish j" and "\<not> unconvertible (stats_count j)"
  shows "unicos (fst (parse_stats j st)) = JNum (number_of (stats_count j))"
  using assms by (simp add: parse_stats_def stats_count_def Let_def to_number_def)

lemma parse_icecast_outcome:
  "snd (parse_icecast j st) =
     (if unconvertible (icecast_count j) then Threw primitive_error else Broke)"
  by (simp add: parse_icecast_def icecast_count_def Let_def to_number_def)

lemma parse_icecast_count:
  assumes "\<not> unconvertible (icecast_count j)"
  shows "unicos (fst (parse_icecast j st)) = JNum (number_of (icecast_count j))"
  using assms by (simp add: parse_icecast_def icecast_count_def Let_def to_number_def)

lemma type_errors:
  "err_name (read_error v k) = ''TypeError''" "err_name primitive_error = ''TypeError''"
  by (simp_all add: read_error_def primitive_error_def)

lemma iteration_of_try_block:
  "snd (try_block fetch u st) = Broke \<Longrightarrow>
     snd (iteration fetch u st) = True
     \<and> unicos (fst (iteration fetch u st)) = unicos (fst (try_block fetch u st))"
  "snd (try_block fetch u st) = Threw e \<Longrightarrow>
     snd (iteration fetch u st) = False
     \<and> lastError (fst (iteration fetch u st)) = Some e"
  by (cases "try_block fetch u st"; simp add: iteration_def)+

lemma json_try_block:
  assumes "u \<in> set urls" and "u \<noteq> url_7html" and "fetch u = Resolved res" and "ok res"
    and "body_json res = Inr j"
  shows "try_block fetch u st =
           (if u = url_statistics then parse_statistics j (fetch_log u st)
            else if u = url_icecast then parse_icecast j (fetch_log u st)
            else parse_stats j (fetch_log u st))"
  using assms(1)
proof (cases rule: urls_cases)
  case 1
  with assms show ?thesis by (simp add: try_block_unfold if_blocks_statistics with_json_def)
next
  case 2
  with assms urls_distinct show ?thesis
    by (auto simp: try_block_unfold if_blocks_stats_sid with_json_def urls_def)
next
  case 3
  with assms urls_distinct show ?thesis
    by (auto simp: try_block_unfold if_blocks_stats with_json_def urls_def)
next
  case 4
  with assms show ?thesis by simp
next
  case 5
  with assms urls_distinct show ?thesis
    by (auto simp: try_block_unfold if_blocks_icecast with_json_def urls_def)
qed

lemma no_expected_field:
  assumes "\<forall>k\<in>set expected_fields. nullish (get_prop j k)" and "\<not> nullish j"
  shows "first_stream j = j" and "statistics_count j = JNum (Finite 0)"
    and "stats_count j = JNum (Finite 0)" and "icecast_count j = JNum (Finite 0)"
proof -
  have a: "\<not> is_array v" if "nullish v" for v using that by (cases v) simp_all
  have t: "\<not> truthy v" if "nullish v" for v using that by (cases v) simp_all
  have o: "nullish (opt_prop v k)" if "nullish v" for v k using that by (simp add: opt_prop_def)
  from assms(1) have f: "nullish (get_prop j ''streams'')"
      "nullish (get_prop j ''uniquelisteners'')" "nullish (get_prop j ''currentlisteners'')"
      "nullish (get_prop j ''icestats'')" "nullish (get_prop j ''source'')"
    by (simp_all add: expected_fields_def)
  show s: "first_stream j = j" using a [OF f(1)] by (simp add: first_stream_def)
  show "statistics_count j = JNum (Finite 0)"
    using f(2,3) by (simp add: statistics_count_def s js_coalesce_def)
  show "stats_count j = JNum (Finite 0)"
    using f(2,3) by (simp add: stats_count_def js_coalesce_def)
  have "nullish (icecast_source j)"
    using t [OF f(4)] f(4,5) assms(2) o [of "opt_prop j ''icestats''" "''source''"]
    by (simp add: icecast_source_def js_or_def opt_prop_def t)
  from o [OF this] show "icecast_count j = JNum (Finite 0)"
    by (simp add: icecast_count_def js_coalesce_def)
qed

lemma continue_cases:
  assumes "u \<in> set urls" and "snd (iteration fetch u st) = False"
  shows "(\<exists>e. snd (try_block fetch u st) = Threw e)
       \<or> (u = url_7html \<and> (\<exists>res page. fetch u = Resolved res \<and> ok res
              \<and> body_text res = Inr page
              \<and> length (split_commas (trim (strip_tags page))) < 7))"
proof (cases "snd (try_block fetch u st)")
  case Broke
  with assms(2) show ?thesis by (simp add: iteration_stops)
next
  case (Threw e)
  then show ?thesis by simp
next
  case Fell
  from assms(1) show ?thesis
  proof (cases rule: urls_cases)
    case 4
    from Fell obtain res where res: "fetch u = Resolved res" "ok res"
        and f: "snd (if_blocks u res (fetch_log u st)) = Fell"
      by (cases "fetch u") (auto simp: try_block_unfold split: if_splits)
    from f 4 obtain page where page: "body_text res = Inr page"
        and p: "snd (parse_7html page (fetch_log u st)) = Fell"
      by (cases "body_text res") (auto simp: if_blocks_7html)
    from p have "length (split_commas (trim (strip_tags page))) < 7"
      by (auto simp: parse_7html_def Let_def split: if_splits)
    with 4 res page show ?thesis by blast
  next
    case 1
    with Fell show ?thesis
      by (cases "fetch u")
         (auto simp: try_block_unfold if_blocks_statistics split: if_splits
            dest: with_json_not_fell [OF parse_statistics_not_fell, THEN notE])
  next
    case 2
    with Fell show ?thesis
      by (cases "fetch u")
         (auto simp: try_block_unfold if_blocks_stats_sid split: if_splits
            dest: with_json_not_fell [OF parse_stats_not_fell, THEN notE])
  next
    case 3
    with Fell show ?thesis
      by (cases "fetch u")
         (auto simp: try_block_unfold if_blocks_stats split: if_splits
            dest: with_json_not_fell [OF parse_stats_not_fell, THEN notE])
  next
    case 5
    with Fell last_url_not_fell [of fetch st] show ?thesis by simp
  qed
qed

section \<open>The claims\<close>

subsection \<open>Claim C1\<close>

text \<open>
  C1.  The handler evaluates \<^verbatim>\<open>Number(flag ?? (unicos ?? 0) > 0 ? 1 : 0) === 1\<close>, in which
  the conditional takes the whole \<^verbatim>\<open>??\<close> chain as its condition: a flag that is present
  decides by its truthiness (lemma \<open>status_with_flag\<close> above), which agrees with being
  equal to 1 for the flag values 0 and 1 only.  A \<^verbatim>\<open>/stats\<close> payload (Shape B) and a
  \<^verbatim>\<open>/statistics\<close> payload (Shape A) with \<^verbatim>\<open>streamstatus: 2\<close> and no listener are both resolved
  as online, and so is the whole request when the Shape B endpoint is the first to
  answer.
\<close>

theorem C1_flag_two_is_online:
  "status (fst (parse_stats (JObj [(''streamstatus'', JNum (Finite 2)),
        (''uniquelisteners'', JNum (Finite 0))]) initial)) = Online
   \<and> status (fst (parse_statistics (JObj [(''streamstatus'', JNum (Finite 2)),
        (''uniquelisteners'', JNum (Finite 0))]) initial)) = Online
   \<and> GET (only url_stats_sid (json_reply (JObj [(''streamstatus'', JNum (Finite 2)),
        (''uniquelisteners'', JNum (Finite 0))]))) now
       = okJson (Success now \<lparr>data_locutor = JStr placeholder, data_programa = JStr placeholder,
           data_unicos = JNum (Finite 0), data_status = Online\<rparr>)"
  by code_simp

subsection \<open>Claim C2\<close>

text \<open>
  C2, as the code has it.  The candidates are requested in the order of the list, up to
  and including the first one whose iteration ends in \<^verbatim>\<open>break\<close>, and none after it.  An
  iteration ends in \<^verbatim>\<open>break\<close> exactly when the response is parsed to the end, and then the
  listener count is a number.  Every other iteration either throws, and the error is
  recorded in \<^verbatim>\<open>lastError\<close>, or falls through, and the loop goes on with the next
  candidate; a rejected fetch and a status outside 2xx are among the former.
\<close>

theorem C2_stops_at_first_completed_parse:
  "requested (for_urls fetch urls initial)
     = takeWhile (\<lambda>u. \<not> stops fetch u) urls @ take 1 (dropWhile (\<lambda>u. \<not> stops fetch u) urls)
   \<and> (\<forall>u st. stops fetch u \<longrightarrow>
         snd (try_block fetch u st) = Broke \<and> snd (iteration fetch u st) = True
         \<and> (\<exists>n. unicos (fst (iteration fetch u st)) = JNum n))
   \<and> (\<forall>u st. \<not> stops fetch u \<longrightarrow>
         snd (iteration fetch u st) = False
         \<and> (snd (try_block fetch u st) = Fell
              \<or> (\<exists>e. snd (try_block fetch u st) = Threw e
                    \<and> lastError (fst (iteration fetch u st)) = Some e)))
   \<and> (\<forall>u. failed (fetch u) \<longrightarrow> \<not> stops fetch u)"
proof (intro conjI allI impI)
  show "requested (for_urls fetch urls initial)
     = takeWhile (\<lambda>u. \<not> stops fetch u) urls @ take 1 (dropWhile (\<lambda>u. \<not> stops fetch u) urls)"
    by (simp add: for_urls_requested initial_def)
next
  fix u st
  assume s: "stops fetch u"
  then show "snd (try_block fetch u st) = Broke" by (simp add: stops_iff [of fetch u st])
  from iteration_stopped [OF s, of st]
  show "snd (iteration fetch u st) = True"
    and "\<exists>n. unicos (fst (iteration fetch u st)) = JNum n"
    by (auto simp: numeric_def split: jsval.splits)
next
  fix u st
  assume n: "\<not> stops fetch u"
  then have nb: "snd (try_block fetch u st) \<noteq> Broke" by (simp add: stops_iff [of fetch u st])
  then show "snd (iteration fetch u st) = False" by (simp add: iteration_stops)
  from nb show "snd (try_block fetch u st) = Fell
      \<or> (\<exists>e. snd (try_block fetch u st) = Threw e
            \<and> lastError (fst (iteration fetch u st)) = Some e)"
    by (cases "try_block fetch u st"; cases "snd (try_block fetch u st)")
       (auto simp: iteration_def)
next
  fix u
  assume "failed (fetch u)"
  from failed_iteration(1) [of fetch u initial, OF this]
  show "\<not> stops fetch u" by (simp add: stops_def)
qed

theorem C2_stops_at_first_completed_parse_witness:
  "failed (second_answers url_statistics)
   \<and> requested (for_urls second_answers urls initial) = [url_statistics, url_stats_sid]
   \<and> unicos (fst (iteration second_answers url_stats_sid initial)) = JNum (Finite 0)"
proof -
  have f: "failed (second_answers url_statistics)"
    by (simp add: failed_def second_answers_def not_found_def ok_def)
  have s: "stops second_answers url_stats_sid" by code_simp
  note c = C2_stops_at_first_completed_parse [of second_answers]
  from c f have n: "\<not> stops second_answers url_statistics" by blast
  from c have "requested (for_urls second_answers urls initial)
     = takeWhile (\<lambda>u. \<not> stops second_answers u) urls
         @ take 1 (dropWhile (\<lambda>u. \<not> stops second_answers u) urls)"
    by (rule conjunct1)
  with n s have r: "requested (for_urls second_answers urls initial)
      = [url_statistics, url_stats_sid]"
    by (simp add: urls_def)
  have "unicos (fst (iteration second_answers url_stats_sid initial)) = JNum (Finite 0)"
    by code_simp
  with f r show ?thesis by simp
qed

text \<open>
  The claim as stated fails.  The first endpoint answers with an announcer and a
  listener count that is an object with an own \<^verbatim>\<open>toString\<close> property: line 78 assigns the
  announcer, \<^verbatim>\<open>Number(...)\<close> of line 81 throws, and the loop goes on to the other four
  candidates although the announcer is no longer \<^verbatim>\<open>null\<close>.  As they are all down, the
  reply is a success envelope with that announcer.
\<close>

theorem C2_counterexample:
  "locutor (fst (iteration (only url_statistics (json_reply unconvertible_count))
       url_statistics initial)) = JStr ''Ana''
   \<and> snd (iteration (only url_statistics (json_reply unconvertible_count))
       url_statistics initial) = False
   \<and> requested (for_urls (only url_statistics (json_reply unconvertible_count)) urls initial)
       = urls
   \<and> GET (only url_statistics (json_reply unconvertible_count)) ''2026-01-01T00:00:00.000Z''
       = okJson (Success ''2026-01-01T00:00:00.000Z''
           \<lparr>data_locutor = JStr ''Ana'', data_programa = JStr placeholder,
            data_unicos = JNum (Finite 0), data_status = Offline\<rparr>)"
  by code_simp

subsection \<open>Claim C3\<close>

text \<open>
  C3.  When every candidate endpoint fails (the fetch rejects or the status is not 2xx),
  or, more generally, when announcer, program and listener count are all still \<^verbatim>\<open>null\<close>
  after the loop, the handler answers with the failure envelope and status 500.  The
  message is the fixed prefix followed by the string form of the last recorded error,
  which is the error of the attempt at the last URL.  No success envelope is produced.
\<close>

theorem C3_exhaustion:
  assumes "(\<forall>u\<in>set urls. failed (fetch u))
     \<or> (unicos (for_urls fetch urls initial) = JNull
        \<and> programa (for_urls fetch urls initial) = JNull
        \<and> locutor (for_urls fetch urls initial) = JNull)"
  shows "\<exists>e. lastError (for_urls fetch urls initial) = Some e
           \<and> snd (try_block fetch (last urls) initial) = Threw e
           \<and> GET fetch now = \<lparr>code = 500, headers = reply_headers,
                body = Failure (exhausted_prefix @ error_to_string e)\<rparr>"
proof -
  let ?st = "for_urls fetch urls initial"
  have null: "unicos ?st = JNull \<and> programa ?st = JNull \<and> locutor ?st = JNull"
  proof (cases "\<forall>u\<in>set urls. failed (fetch u)")
    case True
    from failed_for_urls [OF True, of initial] show ?thesis by (simp add: initial_def)
  next
    case False
    with assms show ?thesis by blast
  qed
  then obtain e where e: "lastError ?st = Some e"
      "snd (try_block fetch (last urls) initial) = Threw e"
    using exhausted_last_error by blast
  have "GET fetch now = errorJson (exhausted_prefix @ error_to_string e)"
    using null e(1) by (simp add: GET_def Let_def last_error_to_string_def exhausted_prefix_def)
  with e show ?thesis by (auto simp: errorJson_def stringify_envelope_def)
qed

theorem C3_exhaustion_witness:
  "failed down
   \<and> GET (\<lambda>u. down) ''2026-01-01T00:00:00.000Z'' = \<lparr>code = 500, headers = reply_headers,
        body = Failure (exhausted_prefix @ ''TypeError: fetch failed'')\<rparr>"
proof -
  have f: "failed down" by (simp add: failed_def down_def)
  then have h: "(\<forall>u\<in>set urls. failed ((\<lambda>u. down) u))
     \<or> (unicos (for_urls (\<lambda>u. down) urls initial) = JNull
        \<and> programa (for_urls (\<lambda>u. down) urls initial) = JNull
        \<and> locutor (for_urls (\<lambda>u. down) urls initial) = JNull)" by blast
  have t: "snd (try_block (\<lambda>u. down) (last urls) initial)
      = Threw (JSError ''TypeError'' ''fetch failed'')"
    by (simp add: try_block_def down_def)
  from C3_exhaustion [OF h, of "''2026-01-01T00:00:00.000Z''"] t f show ?thesis
    by (auto simp: error_to_string_def)
qed

subsection \<open>Claim C4\<close>

text \<open>
  C4.  Without a stream-status flag the status is online exactly when the resolved
  listener count is positive for Shapes A, B and D, and for Shape C as long as field 0
  does not convert to \<^verbatim>\<open>Infinity\<close> (the four lemmas \<open>online_iff_positive_...\<close> above).
  Shape C stores \<^verbatim>\<open>Number.isFinite(current) ? current : 0\<close> as the listener count but tests
  \<^verbatim>\<open>current > 0\<close> for the status: the body \<^verbatim>\<open>Infinity,0,0,0,0,0,x\<close> is resolved to the listener
  count 0 and the status online, by the parser and in the reply of the handler.
\<close>

theorem C4_infinite_count_is_online:
  "parse_7html ''Infinity,0,0,0,0,0,x'' initial
     = (initial\<lparr>locutor := JNull, programa := JStr ''x'', unicos := JNum (Finite 0),
          status := Online\<rparr>, Broke)
   \<and> GET (only url_7html (text_reply ''Infinity,0,0,0,0,0,x'')) now
       = okJson (Success now \<lparr>data_locutor = JStr placeholder, data_programa = JStr ''x'',
           data_unicos = JNum (Finite 0), data_status = Online\<rparr>)"
  by code_simp

subsection \<open>Claim C5\<close>

text \<open>
  C5, as the code has it.  For the two \<^verbatim>\<open>/stats\<close> URLs (Shape B) and a payload that is not
  \<^verbatim>\<open>null\<close>, the announcer is the \<^verbatim>\<open>dj\<close> field when it is truthy, otherwise the \<^verbatim>\<open>songtitle\<close>
  field when that is truthy, otherwise \<^verbatim>\<open>null\<close>: line 97 reads \<^verbatim>\<open>j.dj || j.songtitle || null\<close>.
\<close>

theorem C5_announcer_falls_back_to_song_title:
  assumes "u = url_stats_sid \<or> u = url_stats" and "fetch u = Resolved res" and "ok res"
    and "body_json res = Inr j" and "\<not> nullish j"
  shows "locutor (fst (iteration fetch u st)) =
           (if truthy (get_prop j ''dj'') then get_prop j ''dj''
            else if truthy (get_prop j ''songtitle'') then get_prop j ''songtitle''
            else JNull)"
proof -
  have t: "try_block fetch u st = parse_stats j (fetch_log u st)"
    using assms(1-4) by (rule stats_iteration)
  have l: "locutor (fst (parse_stats j s)) =
      js_or (js_or (get_prop j ''dj'') (get_prop j ''songtitle'')) JNull" for s
    using assms(5) by (simp add: parse_stats_def Let_def coalesce_or_null split: sum.splits)
  have "locutor (fst (iteration fetch u st)) = locutor (fst (try_block fetch u st))"
    by (cases "try_block fetch u st") (simp add: iteration_def split: outcome.splits)
  then show ?thesis by (simp add: t l js_or_def)
qed

theorem C5_announcer_falls_back_to_song_title_witness:
  "locutor (fst (iteration (only url_stats (json_reply (JObj [(''songtitle'', JStr ''Song'')])))
       url_stats initial)) = JStr ''Song''"
proof -
  let ?j = "JObj [(''songtitle'', JStr ''Song'')]"
  let ?res = "\<lparr>http_status = 200, body_json = Inr ?j,
      body_text = Inl (JSError ''TypeError'' ''Body is unusable'')\<rparr>"
  have "only url_stats (json_reply ?j) url_stats = Resolved ?res"
    by (simp add: only_def json_reply_def)
  with C5_announcer_falls_back_to_song_title
         [of url_stats "only url_stats (json_reply ?j)" ?res ?j initial]
  show ?thesis by (simp add: ok_def)
qed

text \<open>
  The claim as stated fails: a Shape B payload without \<^verbatim>\<open>dj\<close> and with a song title
  resolves the announcer to the song title.
\<close>

theorem C5_counterexample:
  "get_prop (JObj [(''songtitle'', JStr ''Song'')]) ''dj'' = JUndefined
   \<and> locutor (fst (parse_stats (JObj [(''songtitle'', JStr ''Song'')]) initial)) = JStr ''Song''
   \<and> GET (only url_stats (json_reply (JObj [(''songtitle'', JStr ''Song'')])))
         ''2026-01-01T00:00:00.000Z''
       = okJson (Success ''2026-01-01T00:00:00.000Z''
           \<lparr>data_locutor = JStr ''Song'', data_programa = JStr ''Song'',
            data_unicos = JNum (Finite 0), data_status = Offline\<rparr>)"
  by code_simp

subsection \<open>Claim C6\<close>




subsection \<open>Claim C7\<close>

text \<open>
  C7.  The body \<^verbatim>\<open>2,10,100,0,128,0,Song - Artist\<close> is parsed to the program
  \<^verbatim>\<open>Song - Artist\<close>, the listener count 2 and the status online, with no announcer, which
  the reply renders as the placeholder.  In general, when the text without its tags,
  trimmed and split at the commas, has at least 7 fields, the program is the fields from
  index 6 on, joined with commas again and stripped of the quotes at both ends
  (\<^verbatim>\<open>null\<close> when nothing is left), and the listener count is the number that field 0
  converts to (0 when that is not finite).
\<close>

theorem C7_legacy_text:
  "parse_7html ''2,10,100,0,128,0,Song - Artist'' st
     = (st\<lparr>locutor := JNull, programa := JStr ''Song - Artist'', unicos := JNum (Finite 2),
          status := Online\<rparr>, Broke)
   \<and> GET (only url_7html (text_reply ''2,10,100,0,128,0,Song - Artist'')) now
       = okJson (Success now \<lparr>data_locutor = JStr placeholder,
           data_programa = JStr ''Song - Artist'', data_unicos = JNum (Finite 2),
           data_status = Online\<rparr>)
   \<and> (\<forall>page parts. parts = split_commas (trim (strip_tags page)) \<and> 7 \<le> length parts \<longrightarrow>
        parse_7html page st
          = (st\<lparr>locutor := JNull,
                programa :=
                  (if strip_quotes (join_commas (drop 6 parts)) = [] then JNull
                   else JStr (strip_quotes (join_commas (drop 6 parts)))),
                unicos :=
                  JNum (if is_finite (string_to_number (hd parts))
                        then string_to_number (hd parts) else Finite 0),
                status := (if positive (string_to_number (hd parts)) then Online else Offline)\<rparr>,
             Broke))"
proof (intro conjI allI impI)
  show "parse_7html ''2,10,100,0,128,0,Song - Artist'' st
     = (st\<lparr>locutor := JNull, programa := JStr ''Song - Artist'', unicos := JNum (Finite 2),
          status := Online\<rparr>, Broke)"
    by (rule example_7html)
  show "GET (only url_7html (text_reply ''2,10,100,0,128,0,Song - Artist'')) now
       = okJson (Success now \<lparr>data_locutor = JStr placeholder,
           data_programa = JStr ''Song - Artist'', data_unicos = JNum (Finite 2),
           data_status = Online\<rparr>)"
    using urls_distinct
    by (simp add: GET_def urls_def for_urls.simps(2) iteration_def try_block_def only_def
          down_def text_reply_def ok_def if_blocks_7html example_7html initial_def js_or_def
          js_coalesce_def placeholder_def Let_def)
next
  fix page parts
  assume "parts = split_commas (trim (strip_tags page)) \<and> 7 \<le> length parts"
  then show "parse_7html page st
          = (st\<lparr>locutor := JNull,
                programa :=
                  (if strip_quotes (join_commas (drop 6 parts)) = [] then JNull
                   else JStr (strip_quotes (join_commas (drop 6 parts)))),
                unicos :=
                  JNum (if is_finite (string_to_number (hd parts))
                        then string_to_number (hd parts) else Finite 0),
                status := (if positive (string_to_number (hd parts)) then Online else Offline)\<rparr>,
             Broke)"
    by (elim conjE) (rule parse_7html_fields)
qed

theorem C7_legacy_text_witness:
  "parse_7html ''<html><body>5,9,50,0,64,0,\"Live, from the studio\"</body></html>'' initial
     = (initial\<lparr>locutor := JNull, programa := JStr ''Live, from the studio'',
          unicos := JNum (Finite 5), status := Online\<rparr>, Broke)"
proof -
  let ?page = "''<html><body>5,9,50,0,64,0,\"Live, from the studio\"</body></html>''"
  let ?parts = "[''5'', ''9'', ''50'', ''0'', ''64'', ''0'', ''\"Live'', '' from the studio\"'']"
  have parts: "?parts = split_commas (trim (strip_tags ?page))"
    by code_simp
  have n: "string_to_number ''5'' = Finite 5" by code_simp
  have q: "strip_quotes ''\"Live, from the studio\"'' = ''Live, from the studio''"
    by code_simp
  have len: "7 \<le> length ?parts" by simp
  from C7_legacy_text [of initial, THEN conjunct2, THEN conjunct2, THEN spec [of _ ?page],
      THEN spec [of _ ?parts], THEN mp, OF conjI [OF parts len]]
  show ?thesis by (simp add: n q)
qed

subsection \<open>Claim C8\<close>

text \<open>
  C8.  The reply is a function of the responses of the five endpoints and of the clock,
  and the clock only fills in the timestamp: two invocations that see the same response
  at every candidate URL give replies that are equal once the timestamp is erased.
\<close>

theorem C8_deterministic_up_to_timestamp:
  assumes "\<forall>u\<in>set urls. fetch u = fetch' u"
  shows "without_timestamp (GET fetch now) = without_timestamp (GET fetch' now')"
proof -
  have "for_urls fetch urls initial = for_urls fetch' urls initial"
    using assms by (rule for_urls_cong)
  then show ?thesis
    by (simp add: GET_def Let_def without_timestamp_def okJson_def errorJson_def
          stringify_envelope_def)
qed

theorem C8_deterministic_up_to_timestamp_witness:
  "without_timestamp (GET (only url_stats (json_reply (JObj [(''dj'', JStr ''Ana'')])))
       ''2026-01-01T00:00:00.000Z'')
   = without_timestamp
       (GET (elsewhere (only url_stats (json_reply (JObj [(''dj'', JStr ''Ana'')]))))
          ''2026-01-02T12:30:00.000Z'')"
proof -
  have "\<forall>u\<in>set urls. u \<noteq> ''http://example.org/''" by code_simp
  then have "\<forall>u\<in>set urls. only url_stats (json_reply (JObj [(''dj'', JStr ''Ana'')])) u
      = elsewhere (only url_stats (json_reply (JObj [(''dj'', JStr ''Ana'')]))) u"
    by (simp add: elsewhere_def)
  then show ?thesis by (rule C8_deterministic_up_to_timestamp)
qed

subsection \<open>Claim C9\<close>

text \<open>
  C9, as the code has it.  For the URLs parsed as Shape A, B or D, a response with a
  2xx status whose body parses as JSON ends the loop at that endpoint, with the
  listener count set to \<^verbatim>\<open>Number\<close> of the count read from the payload, unless a
  \<^verbatim>\<open>TypeError\<close> is thrown while the payload is read; then the error is recorded and the next
  candidate is tried.  The \<^verbatim>\<open>TypeError\<close> is thrown exactly when, for Shape A, the payload is
  \<^verbatim>\<open>null\<close>, the first element of a non-empty \<^verbatim>\<open>streams\<close> array is \<^verbatim>\<open>null\<close>, or the count cannot
  be converted to a number (it is an object with a \<^verbatim>\<open>toString\<close> property of its own, or an
  array that holds one); for Shape B, the payload is \<^verbatim>\<open>null\<close> or the count cannot be
  converted; for Shape D, the count cannot be converted.  A payload that is not \<^verbatim>\<open>null\<close>
  and in which each of the expected fields is absent or \<^verbatim>\<open>null\<close> ends the loop with the
  listener count 0.  The loop goes on to the next candidate only after a thrown error or
  a Shape C body with fewer than 7 fields.
\<close>

theorem C9_json_body_stops_or_throws:
  assumes "u \<in> set urls"
  shows "(u = url_statistics \<and> fetch u = Resolved res \<and> ok res \<and> body_json res = Inr j \<longrightarrow>
            (if nullish j \<or> nullish (first_stream j) \<or> unconvertible (statistics_count j)
             then snd (iteration fetch u st) = False
                  \<and> (\<exists>e. snd (try_block fetch u st) = Threw e \<and> err_name e = ''TypeError''
                        \<and> lastError (fst (iteration fetch u st)) = Some e)
             else snd (iteration fetch u st) = True
                  \<and> unicos (fst (iteration fetch u st))
                      = JNum (number_of (statistics_count j))))
       \<and> ((u = url_stats_sid \<or> u = url_stats) \<and> fetch u = Resolved res \<and> ok res
            \<and> body_json res = Inr j \<longrightarrow>
            (if nullish j \<or> unconvertible (stats_count j)
             then snd (iteration fetch u st) = False
                  \<and> (\<exists>e. snd (try_block fetch u st) = Threw e \<and> err_name e = ''TypeError''
                        \<and> lastError (fst (iteration fetch u st)) = Some e)
             else snd (iteration fetch u st) = True
                  \<and> unicos (fst (iteration fetch u st)) = JNum (number_of (stats_count j))))
       \<and> (u = url_icecast \<and> fetch u = Resolved res \<and> ok res \<and> body_json res = Inr j \<longrightarrow>
            (if unconvertible (icecast_count j)
             then snd (iteration fetch u st) = False
                  \<and> (\<exists>e. snd (try_block fetch u st) = Threw e \<and> err_name e = ''TypeError''
                        \<and> lastError (fst (iteration fetch u st)) = Some e)
             else snd (iteration fetch u st) = True
                  \<and> unicos (fst (iteration fetch u st))
                      = JNum (number_of (icecast_count j))))
       \<and> (u \<noteq> url_7html \<and> fetch u = Resolved res \<and> ok res \<and> body_json res = Inr j
            \<and> \<not> nullish j \<and> (\<forall>k\<in>set expected_fields. nullish (get_prop j k)) \<longrightarrow>
            snd (iteration fetch u st) = True
              \<and> unicos (fst (iteration fetch u st)) = JNum (Finite 0))
       \<and> (snd (iteration fetch u st) = False \<longrightarrow>
            (\<exists>e. snd (try_block fetch u st) = Threw e)
            \<or> (u = url_7html \<and> (\<exists>res page. fetch u = Resolved res \<and> ok res
                  \<and> body_text res = Inr page
                  \<and> length (split_commas (trim (strip_tags page))) < 7)))"
proof -
  let ?s = "fetch_log u st"
  let ?Throws = "snd (iteration fetch u st) = False
      \<and> (\<exists>e. snd (try_block fetch u st) = Threw e \<and> err_name e = ''TypeError''
            \<and> lastError (fst (iteration fetch u st)) = Some e)"
  let ?Stops = "\<lambda>c. snd (iteration fetch u st) = True
      \<and> unicos (fst (iteration fetch u st)) = JNum (number_of c)"
  have t: "try_block fetch u st =
           (if u = url_statistics then parse_statistics j ?s
            else if u = url_icecast then parse_icecast j ?s
            else parse_stats j ?s)"
    if "u \<noteq> url_7html" "fetch u = Resolved res" "ok res" "body_json res = Inr j"
    using that by (intro json_try_block [OF assms])
  have d: "url_statistics \<noteq> url_7html" "url_stats_sid \<noteq> url_7html" "url_stats \<noteq> url_7html"
      "url_icecast \<noteq> url_7html" "url_stats_sid \<noteq> url_statistics"
      "url_stats \<noteq> url_statistics" "url_stats_sid \<noteq> url_icecast" "url_stats \<noteq> url_icecast"
      "url_icecast \<noteq> url_statistics"
    using urls_distinct by (auto simp: urls_def)
  have thrown: ?Throws if "snd (try_block fetch u st) = Threw e" "err_name e = ''TypeError''"
    for e
    using iteration_of_try_block(2) [OF that(1)] that by blast
  have stopped: "?Stops c"
    if "snd (try_block fetch u st) = Broke" "unicos (fst (try_block fetch u st)) = JNum (number_of c)"
    for c
    using iteration_of_try_block(1) [OF that(1)] that(2) by simp
  have A: "if nullish j \<or> nullish (first_stream j) \<or> unconvertible (statistics_count j)
      then ?Throws else ?Stops (statistics_count j)"
    if a: "u = url_statistics" "fetch u = Resolved res" "ok res" "body_json res = Inr j"
  proof -
    have tb: "try_block fetch u st = parse_statistics j ?s"
      using t [OF _ a(2-4)] a(1) d by simp
    show ?thesis
    proof (cases "nullish j \<or> nullish (first_stream j) \<or> unconvertible (statistics_count j)")
      case True
      then have "\<exists>e. snd (try_block fetch u st) = Threw e \<and> err_name e = ''TypeError''"
        unfolding tb parse_statistics_outcome by (auto simp: type_errors)
      with thrown True show ?thesis by auto
    next
      case False
      then have "snd (try_block fetch u st) = Broke"
        unfolding tb parse_statistics_outcome by simp
      moreover from False
      have "unicos (fst (try_block fetch u st)) = JNum (number_of (statistics_count j))"
        unfolding tb by (simp add: parse_statistics_count)
      ultimately show ?thesis using stopped False by simp
    qed
  qed
  have B: "if nullish j \<or> unconvertible (stats_count j) then ?Throws else ?Stops (stats_count j)"
    if a: "u = url_stats_sid \<or> u = url_stats" "fetch u = Resolved res" "ok res"
      "body_json res = Inr j"
  proof -
    have tb: "try_block fetch u st = parse_stats j ?s"
      using t [OF _ a(2-4)] a(1) d by auto
    show ?thesis
    proof (cases "nullish j \<or> unconvertible (stats_count j)")
      case True
      then have "\<exists>e. snd (try_block fetch u st) = Threw e \<and> err_name e = ''TypeError''"
        unfolding tb parse_stats_outcome by (auto simp: type_errors)
      with thrown True show ?thesis by auto
    next
      case False
      then have "snd (try_block fetch u st) = Broke"
        unfolding tb parse_stats_outcome by simp
      moreover from False
      have "unicos (fst (try_block fetch u st)) = JNum (number_of (stats_count j))"
        unfolding tb by (simp add: parse_stats_count)
      ultimately show ?thesis using stopped False by simp
    qed
  qed
  have D: "if unconvertible (icecast_count j) then ?Throws else ?Stops (icecast_count j)"
    if a: "u = url_icecast" "fetch u = Resolved res" "ok res" "body_json res = Inr j"
  proof -
    have tb: "try_block fetch u st = parse_icecast j ?s"
      using t [OF _ a(2-4)] a(1) d by simp
    show ?thesis
    proof (cases "unconvertible (icecast_count j)")
      case True
      then have "\<exists>e. snd (try_block fetch u st) = Threw e \<and> err_name e = ''TypeError''"
        unfolding tb parse_icecast_outcome by (auto simp: type_errors)
      with thrown True show ?thesis by auto
    next
      case False
      then have "snd (try_block fetch u st) = Broke"
        unfolding tb parse_icecast_outcome by simp
      moreover from False
      have "unicos (fst (try_block fetch u st)) = JNum (number_of (icecast_count j))"
        unfolding tb by (simp add: parse_icecast_count)
      ultimately show ?thesis using stopped False by simp
    qed
  qed
  have E: "snd (iteration fetch u st) = True
              \<and> unicos (fst (iteration fetch u st)) = JNum (Finite 0)"
    if a: "u \<noteq> url_7html" "fetch u = Resolved res" "ok res" "body_json res = Inr j"
      and e: "\<not> nullish j" "\<forall>k\<in>set expected_fields. nullish (get_prop j k)"
  proof -
    note n = no_expected_field [OF e(2,1)]
    from assms a(1) consider "u = url_statistics" | "u = url_stats_sid \<or> u = url_stats"
      | "u = url_icecast"
      by (cases rule: urls_cases) auto
    then show ?thesis
    proof cases
      case 1
      from A [OF 1 a(2-4)] e(1) show ?thesis by (simp add: n)
    next
      case 2
      from B [OF 2 a(2-4)] e(1) show ?thesis by (simp add: n)
    next
      case 3
      from D [OF 3 a(2-4)] show ?thesis by (simp add: n)
    qed
  qed
  have F: "(\<exists>e. snd (try_block fetch u st) = Threw e)
            \<or> (u = url_7html \<and> (\<exists>res page. fetch u = Resolved res \<and> ok res
                  \<and> body_text res = Inr page
                  \<and> length (split_commas (trim (strip_tags page))) < 7))"
    if "snd (iteration fetch u st) = False"
    using assms that by (rule continue_cases)
  from A B D E F show ?thesis by blast
qed

theorem C9_json_body_stops_or_throws_witness:
  "snd (iteration (only url_statistics (json_reply (JObj [(''streams'', JArr [JNull])])))
       url_statistics initial) = False
   \<and> nullish (first_stream (JObj [(''streams'', JArr [JNull])]))
   \<and> snd (iteration (only url_stats (json_reply (JObj [(''foo'', JNum (Finite 1))])))
       url_stats initial) = True
   \<and> unicos (fst (iteration (only url_stats (json_reply (JObj [(''foo'', JNum (Finite 1))])))
       url_stats initial)) = JNum (Finite 0)
   \<and> snd (iteration (only url_7html (text_reply ''offline'')) url_7html initial) = False
   \<and> length (split_commas (trim (strip_tags ''offline''))) < 7"
proof -
  let ?a = "JObj [(''streams'', JArr [JNull])]"
  let ?ra = "\<lparr>http_status = 200, body_json = Inr ?a,
      body_text = Inl (JSError ''TypeError'' ''Body is unusable'')\<rparr>"
  have ua: "url_statistics \<in> set urls" by (simp add: urls_def)
  have fa: "only url_statistics (json_reply ?a) url_statistics = Resolved ?ra"
    by (simp add: only_def json_reply_def)
  have oa: "ok ?ra" by (simp add: ok_def)
  have na: "nullish (first_stream ?a)" by (simp add: first_stream_def)
  from C9_json_body_stops_or_throws [OF ua, of "only url_statistics (json_reply ?a)"
      ?ra ?a initial, THEN conjunct1] fa oa na
  have one: "snd (iteration (only url_statistics (json_reply ?a)) url_statistics initial) = False"
    by simp
  let ?b = "JObj [(''foo'', JNum (Finite 1))]"
  let ?rb = "\<lparr>http_status = 200, body_json = Inr ?b,
      body_text = Inl (JSError ''TypeError'' ''Body is unusable'')\<rparr>"
  have ub: "url_stats \<in> set urls" by (simp add: urls_def)
  have nb: "url_stats \<noteq> url_7html" using urls_distinct by (auto simp: urls_def)
  have fb: "only url_stats (json_reply ?b) url_stats = Resolved ?rb"
    by (simp add: only_def json_reply_def)
  have ob: "ok ?rb" by (simp add: ok_def)
  have eb: "\<not> nullish ?b \<and> (\<forall>k\<in>set expected_fields. nullish (get_prop ?b k))"
    by (simp add: expected_fields_def)
  from C9_json_body_stops_or_throws [OF ub, of "only url_stats (json_reply ?b)"
      ?rb ?b initial, THEN conjunct2, THEN conjunct2, THEN conjunct2, THEN conjunct1]
    nb fb ob eb
  have two: "snd (iteration (only url_stats (json_reply ?b)) url_stats initial) = True
   \<and> unicos (fst (iteration (only url_stats (json_reply ?b)) url_stats initial))
       = JNum (Finite 0)"
    by simp
  let ?g = "only url_7html (text_reply ''offline'')"
  have v: "url_7html \<in> set urls" by (simp add: urls_def)
  have i: "snd (iteration ?g url_7html initial) = False" by code_simp
  have t: "snd (try_block ?g url_7html initial) = Fell" by code_simp
  from C9_json_body_stops_or_throws [OF v, of ?g _ _ initial, THEN conjunct2, THEN conjunct2,
      THEN conjunct2, THEN conjunct2] i t
  obtain res page where "?g url_7html = Resolved res" "body_text res = Inr page"
      "length (split_commas (trim (strip_tags page))) < 7"
    by auto
  then have "length (split_commas (trim (strip_tags ''offline''))) < 7"
    by (auto simp: only_def text_reply_def)
  with one na two i show ?thesis by simp
qed

text \<open>
  The claim as stated fails: the JSON body \<^verbatim>\<open>null\<close> at the first endpoint has a 2xx
  status and parses, yet \<^verbatim>\<open>j.streams\<close> throws a \<^verbatim>\<open>TypeError\<close>, the loop does not stop there
  and goes on to the other four candidates.
\<close>

theorem C9_counterexample:
  "snd (iteration (only url_statistics (json_reply JNull)) url_statistics initial) = False
   \<and> snd (try_block (only url_statistics (json_reply JNull)) url_statistics initial)
       = Threw (JSError ''TypeError'' ''Cannot read properties of null (reading 'streams')'')
   \<and> requested (for_urls (only url_statistics (json_reply JNull)) urls initial) = urls"
  by code_simp

subsection \<open>Claim C10\<close>

text \<open>
  C10.  In a success envelope neither \<^verbatim>\<open>locutor\<close> nor \<^verbatim>\<open>programa\<close> is the empty string:
  \<^verbatim>\<open>locutor || "\<emdash>"\<close> replaces every falsy value, the empty string as well as \<^verbatim>\<open>null\<close>, by
  the placeholder.
\<close>

theorem C10_never_the_empty_string:
  assumes "body (GET fetch now) = Success t d"
  shows "data_locutor d \<noteq> JStr [] \<and> data_programa d \<noteq> JStr []
       \<and> (locutor (for_urls fetch urls initial) = JStr []
            \<or> locutor (for_urls fetch urls initial) = JNull \<longrightarrow> data_locutor d = JStr placeholder)
       \<and> (programa (for_urls fetch urls initial) = JStr []
            \<or> programa (for_urls fetch urls initial) = JNull
           \<longrightarrow> data_programa d = JStr placeholder)"
proof -
  let ?st = "for_urls fetch urls initial"
  have p: "stringify (js_or v (JStr placeholder)) \<noteq> JStr []" for v
    by (cases "truthy v") (auto simp: js_or_def placeholder_def stringify_string)
  from assms have d: "data_locutor d = stringify (js_or (locutor ?st) (JStr placeholder))"
      "data_programa d = stringify (js_or (programa ?st) (JStr placeholder))"
    by (auto simp: GET_def Let_def okJson_def errorJson_def stringify_envelope_def
          split: if_splits)
  show ?thesis unfolding d using p by (auto simp: js_or_def)
qed

theorem C10_never_the_empty_string_witness:
  "GET (only url_stats (json_reply (JObj [(''dj'', JStr []), (''songtitle'', JStr []),
        (''uniquelisteners'', JNum (Finite 3))]))) ''2026-01-01T00:00:00.000Z''
     = okJson (Success ''2026-01-01T00:00:00.000Z''
         \<lparr>data_locutor = JStr placeholder, data_programa = JStr placeholder,
          data_unicos = JNum (Finite 3), data_status = Online\<rparr>)
   \<and> JStr placeholder \<noteq> JStr []"
proof -
  let ?f = "only url_stats (json_reply (JObj [(''dj'', JStr []), (''songtitle'', JStr []),
        (''uniquelisteners'', JNum (Finite 3))]))"
  have g: "GET ?f ''2026-01-01T00:00:00.000Z''
     = okJson (Success ''2026-01-01T00:00:00.000Z''
         \<lparr>data_locutor = JStr placeholder, data_programa = JStr placeholder,
          data_unicos = JNum (Finite 3), data_status = Online\<rparr>)"
    by code_simp
  then have "body (GET ?f ''2026-01-01T00:00:00.000Z'') = Success ''2026-01-01T00:00:00.000Z''
         \<lparr>data_locutor = JStr placeholder, data_programa = JStr placeholder,
          data_unicos = JNum (Finite 3), data_status = Online\<rparr>"
    by (simp add: okJson_def stringify_envelope_def)
  from C10_never_the_empty_string [OF this] g show ?thesis by simp
qed

end
